theory Spec2Isabelle
  imports Main "HOL-Library.Word"
begin

section \<open>JavaScript values used by the application\<close>

text \<open>
  A JavaScript string is a sequence of 16-bit code units. The signature pattern contains
  an em dash (U+2014) and \<open>trim\<close> knows white space beyond ASCII, so strings are lists
  of 16-bit words; \<open>js\<close> embeds an ASCII literal.
\<close>

type_synonym jschar = "16 word"
type_synonym jsstring = "jschar list"

definition js :: "string \<Rightarrow> jsstring" where
  "js s = map of_char s"

text \<open>
  The numbers that occur are calendar fields and the results of \<open>Number\<close> on a key
  component: integers, or \<open>NaN\<close>, which is \<open>None\<close>.
\<close>

type_synonym jsnum = "int option"

definition plus_num :: "jsnum \<Rightarrow> int \<Rightarrow> jsnum" where
  "plus_num n k = map_option (\<lambda>i. i + k) n"

definition digit_units :: "jschar list" where
  "digit_units = [0x30, 0x31, 0x32, 0x33, 0x34, 0x35, 0x36, 0x37, 0x38, 0x39]"

definition is_digit :: "jschar \<Rightarrow> bool" where
  "is_digit c = (c \<in> set digit_units)"

fun digits10 :: "nat \<Rightarrow> jsstring" where
  "digits10 n =
     (if n < 10 then [digit_units ! n]
      else digits10 (n div 10) @ [digit_units ! (n mod 10)])"

declare digits10.simps [simp del]

text \<open>
  \<open>num_str\<close> is the conversion a template literal \<^verbatim>\<open>`${n}`\<close> and \<^verbatim>\<open>String(n)\<close>
  apply to an integer (magnitudes of 1e21 and more, which JavaScript prints with an
  exponent, do not occur among calendar fields).
\<close>

definition num_str :: "jsnum \<Rightarrow> jsstring" where
  "num_str n =
     (case n of
        None \<Rightarrow> js ''NaN''
      | Some i \<Rightarrow> if i < 0 then js ''-'' @ digits10 (nat (- i)) else digits10 (nat i))"

definition digit_val :: "jschar \<Rightarrow> nat" where
  "digit_val c = unat c - 48"

text \<open>
  \<^verbatim>\<open>Number(s)\<close> on a key component. The empty string is 0 and a string of decimal
  digits is its value, as in JavaScript; every other string is \<open>NaN\<close> here
  (JavaScript also reads signs, surrounding white space, fractions, exponents and
  radix prefixes, none of which the application writes into a key).
\<close>

definition Number :: "jsstring \<Rightarrow> jsnum" where
  "Number s =
     (if list_all is_digit s then Some (int (foldl (\<lambda>a c. 10 * a + digit_val c) 0 s))
      else None)"

text \<open>\<^verbatim>\<open>s.split(sep)\<close> for a separator of one code unit.\<close>

fun split :: "jschar \<Rightarrow> jsstring \<Rightarrow> jsstring list" where
  "split sep [] = [] # []"
| "split sep (c # cs) =
     (if c = sep then [] # split sep cs
      else (case split sep cs of
              [] \<Rightarrow> [c] # []
            | x # xs \<Rightarrow> (c # x) # xs))"

text \<open>\<^verbatim>\<open>s.padStart(2, '0')\<close>.\<close>

definition padStart2 :: "jsstring \<Rightarrow> jsstring" where
  "padStart2 s = replicate (2 - length s) 0x30 @ s"

text \<open>
  Truthiness of a value of type \<^verbatim>\<open>string | null | undefined\<close>: \<open>None\<close> stands for
  \<^verbatim>\<open>null\<close> and \<^verbatim>\<open>undefined\<close>, and the empty string is falsy too.
\<close>

definition truthy :: "jsstring option \<Rightarrow> bool" where
  "truthy v = (case v of None \<Rightarrow> False | Some s \<Rightarrow> s \<noteq> [])"

text \<open>
  \<^verbatim>\<open>s.trim()\<close> removes the ECMAScript \<open>WhiteSpace\<close> and \<open>LineTerminator\<close> code
  points from both ends.
\<close>

definition white_space :: "jschar list" where
  "white_space =
     [0x0009, 0x000A, 0x000B, 0x000C, 0x000D, 0x0020, 0x00A0, 0x1680,
      0x2000, 0x2001, 0x2002, 0x2003, 0x2004, 0x2005, 0x2006, 0x2007,
      0x2008, 0x2009, 0x200A, 0x2028, 0x2029, 0x202F, 0x205F, 0x3000, 0xFEFF]"

definition is_space :: "jschar \<Rightarrow> bool" where
  "is_space c = (c \<in> set white_space)"

definition trim :: "jsstring \<Rightarrow> jsstring" where
  "trim s = rev (dropWhile is_space (rev (dropWhile is_space s)))"

subsection \<open>Dates\<close>

text \<open>
  A \<^verbatim>\<open>Date\<close> is read and written through its local calendar fields only
  (\<^verbatim>\<open>getFullYear\<close>, \<^verbatim>\<open>getMonth\<close>, \<^verbatim>\<open>getDate\<close>, \<^verbatim>\<open>setMonth\<close>, \<^verbatim>\<open>setDate\<close>), so
  the model keeps the year, the month index (0 to 11) and the day of the month; the
  time of day is left out. A date set from \<open>NaN\<close> is \<^verbatim>\<open>Invalid Date\<close>, whose getters
  return \<open>NaN\<close>. The year is an unbounded integer: the end of the range of
  \<^verbatim>\<open>Date\<close>, some 275000 years from 1970, beyond which JavaScript gives
  \<^verbatim>\<open>Invalid Date\<close>, is left out.
\<close>

datatype jsdate = Invalid_Date | Date int int int

definition getFullYear :: "jsdate \<Rightarrow> jsnum" where
  "getFullYear d = (case d of Invalid_Date \<Rightarrow> None | Date y m dd \<Rightarrow> Some y)"

definition getMonth :: "jsdate \<Rightarrow> jsnum" where
  "getMonth d = (case d of Invalid_Date \<Rightarrow> None | Date y m dd \<Rightarrow> Some m)"

definition getDate :: "jsdate \<Rightarrow> jsnum" where
  "getDate d = (case d of Invalid_Date \<Rightarrow> None | Date y m dd \<Rightarrow> Some dd)"

text \<open>
  The setters normalise as ECMAScript's \<open>MakeDay\<close> does: the month index is carried
  into the year, the day number of the first of that month is taken, and the day of the
  month is added to it as a plain count of days, so that a day beyond the end of the
  month runs over into the following months and day 0 is the last day of the month
  before. \<open>days_from_civil\<close> and \<open>civil_from_days\<close> convert between a proleptic
  Gregorian date (month 1 to 12) and its day number from 1970-01-01.
\<close>

definition days_from_civil :: "int \<Rightarrow> int \<Rightarrow> int \<Rightarrow> int" where
  "days_from_civil y m d =
     (let y' = (if m \<le> 2 then y - 1 else y);
          era = y' div 400;
          yoe = y' - era * 400;
          doy = (153 * (if m > 2 then m - 3 else m + 9) + 2) div 5 + d - 1;
          doe = yoe * 365 + yoe div 4 - yoe div 100 + doy
      in era * 146097 + doe - 719468)"

definition civil_from_days :: "int \<Rightarrow> int \<times> int \<times> int" where
  "civil_from_days z0 =
     (let z = z0 + 719468;
          era = z div 146097;
          doe = z - era * 146097;
          yoe = (doe - doe div 1460 + doe div 36524 - doe div 146096) div 365;
          doy = doe - (365 * yoe + yoe div 4 - yoe div 100);
          mp = (5 * doy + 2) div 153;
          d = doy - (153 * mp + 2) div 5 + 1;
          m = (if mp < 10 then mp + 3 else mp - 9);
          y = yoe + era * 400
      in (if m \<le> 2 then y + 1 else y, m, d))"

definition MakeDay :: "int \<Rightarrow> int \<Rightarrow> int \<Rightarrow> jsdate" where
  "MakeDay y m dt =
     (let ym = y + m div 12;
          mn = m mod 12;
          day = days_from_civil ym (mn + 1) 1 + dt - 1
      in case civil_from_days day of (y', m', d') \<Rightarrow> Date y' (m' - 1) d')"

definition setMonth :: "jsdate \<Rightarrow> jsnum \<Rightarrow> jsdate" where
  "setMonth d n =
     (case d of
        Invalid_Date \<Rightarrow> Invalid_Date
      | Date y m dd \<Rightarrow> (case n of None \<Rightarrow> Invalid_Date | Some k \<Rightarrow> MakeDay y k dd))"

definition setDate :: "jsdate \<Rightarrow> jsnum \<Rightarrow> jsdate" where
  "setDate d n =
     (case d of
        Invalid_Date \<Rightarrow> Invalid_Date
      | Date y m dd \<Rightarrow> (case n of None \<Rightarrow> Invalid_Date | Some k \<Rightarrow> MakeDay y m k))"

definition leap_year :: "int \<Rightarrow> bool" where
  "leap_year y = (y mod 4 = 0 \<and> (y mod 100 \<noteq> 0 \<or> y mod 400 = 0))"

definition days_in_month :: "int \<Rightarrow> int \<Rightarrow> int" where
  "days_in_month y m =
     (if m = 1 then (if leap_year y then 29 else 28)
      else if m \<in> {3, 5, 8, 10} then 30 else 31)"

text \<open>The dates a clock can show: a month index from 0 to 11 and a day of that month.\<close>

definition valid_date :: "jsdate \<Rightarrow> bool" where
  "valid_date d =
     (case d of
        Invalid_Date \<Rightarrow> False
      | Date y m dd \<Rightarrow> 0 \<le> m \<and> m \<le> 11 \<and> 1 \<le> dd \<and> dd \<le> days_in_month y m)"

subsection \<open>The signature pattern\<close>

text \<open>
  \<^verbatim>\<open>DATE_SIGNATURE_REGEX = /\n\n \<emdash> \d{4}\. \d{1,2}\. \d{1,2}\.$/\<close> (the dash is
  U+2014) is built from literal code units and digits; \<^verbatim>\<open>\d{1,2}\<close> is a digit followed
  by an optional digit. \<open>rx_match p s\<close> holds when the pattern matches at the start of
  \<open>s\<close> and ends at the end of the input, which is what the final \<^verbatim>\<open>$\<close> asks for (the
  pattern has no \<^verbatim>\<open>m\<close> flag). The optional digit is tried greedily first, then skipped.
\<close>

datatype rx = Lit jschar | Digit | OptDigit

fun rx_match :: "rx list \<Rightarrow> jsstring \<Rightarrow> bool" where
  "rx_match [] s = (s = [])"
| "rx_match (Lit c # p) s = (case s of [] \<Rightarrow> False | x # xs \<Rightarrow> x = c \<and> rx_match p xs)"
| "rx_match (Digit # p) s = (case s of [] \<Rightarrow> False | x # xs \<Rightarrow> is_digit x \<and> rx_match p xs)"
| "rx_match (OptDigit # p) s =
     ((case s of [] \<Rightarrow> False | x # xs \<Rightarrow> is_digit x \<and> rx_match p xs) \<or> rx_match p s)"

definition DATE_SIGNATURE_REGEX :: "rx list" where
  "DATE_SIGNATURE_REGEX =
     [Lit 0x0A, Lit 0x0A, Lit 0x20, Lit 0x2014, Lit 0x20,
      Digit, Digit, Digit, Digit, Lit 0x2E, Lit 0x20,
      Digit, OptDigit, Lit 0x2E, Lit 0x20,
      Digit, OptDigit, Lit 0x2E]"

text \<open>
  \<^verbatim>\<open>text.match(re)\<close> is not null when the pattern matches at some start position;
  \<^verbatim>\<open>text.replace(re, '')\<close> (no \<^verbatim>\<open>g\<close> flag) removes the match found at the leftmost
  such position, which reaches the end of the input here.
\<close>

fun rx_test :: "rx list \<Rightarrow> jsstring \<Rightarrow> bool" where
  "rx_test p [] = rx_match p []"
| "rx_test p (c # cs) = (rx_match p (c # cs) \<or> rx_test p cs)"

fun replace_empty :: "rx list \<Rightarrow> jsstring \<Rightarrow> jsstring" where
  "replace_empty p [] = []"
| "replace_empty p (c # cs) = (if rx_match p (c # cs) then [] else c # replace_empty p cs)"

text \<open>
  The signature written at save time (\<^verbatim>\<open>handleSaveNote\<close>):
  \<^verbatim>\<open>`\n\n \<emdash> ${now.getFullYear()}. ${now.getMonth() + 1}. ${now.getDate()}.`\<close>
\<close>

definition signature :: "jsdate \<Rightarrow> jsstring" where
  "signature now =
     [0x0A, 0x0A, 0x20, 0x2014, 0x20] @ num_str (getFullYear now) @ js ''. ''
       @ num_str (plus_num (getMonth now) 1) @ js ''. '' @ num_str (getDate now) @ js ''.''"

section \<open>The application\<close>

subsection \<open>Data and collaborators\<close>

text \<open>\<^verbatim>\<open>interface Quote\<close> and \<^verbatim>\<open>interface StoredQuote\<close> of \<^verbatim>\<open>types.ts\<close>.\<close>

record Quote =
  quote :: jsstring
  author :: jsstring
  meaning :: jsstring
  tags :: "jsstring list"

record StoredQuote =
  date :: jsstring
  data :: Quote
  viewedAt :: int

text \<open>
  What lies outside the sources is a parameter of the model:
  \<^item> \<open>FIXED_QUOTES\<close>, the table of \<^verbatim>\<open>services/quotesData\<close>, from \<^verbatim>\<open>"M/D"\<close> to a text;
  \<^item> \<open>generateContent\<close>, the generative model behind \<^verbatim>\<open>ai.models.generateContent\<close>:
    the answer to the request with a given number of requests before it, for a given
    date (the prompt depends on the date only), either a failure of the call or a
    response whose \<^verbatim>\<open>text\<close> may be undefined;
  \<^item> \<^verbatim>\<open>JSON.parse\<close> on a text that is cast to \<^verbatim>\<open>Quote\<close> (\<open>None\<close> when it throws; the
    cast is trusted, so a text that parses is taken to be a \<^verbatim>\<open>Quote\<close>), and
    \<^verbatim>\<open>JSON.stringify\<close> on the three kinds of value the application stores.
\<close>

datatype ai_response = Api_Error | Response "jsstring option"

record env =
  FIXED_QUOTES :: "jsstring \<rightharpoonup> jsstring"
  generateContent :: "nat \<Rightarrow> jsdate \<Rightarrow> ai_response"
  JSON_parse :: "jsstring \<Rightarrow> Quote option"
  JSON_stringify :: "Quote \<Rightarrow> jsstring"
  JSON_stringify_favorites :: "StoredQuote list \<Rightarrow> jsstring"
  JSON_stringify_notes :: "(jsstring \<rightharpoonup> jsstring) \<Rightarrow> jsstring"

datatype exn = Api_Failure | Empty_Response | SyntaxError

datatype toast = Removed_From_Favorites | Added_To_Favorites | Note_Deleted | Note_Saved

datatype direction = Next | Prev

text \<open>
  The state of the component \<^verbatim>\<open>App\<close> (its \<^verbatim>\<open>useState\<close> cells that the handlers below
  touch) together with the browser's \<^verbatim>\<open>localStorage\<close>, and two logs that record the
  calls of \<^verbatim>\<open>generateQuoteOfDay\<close> made by \<^verbatim>\<open>loadQuoteByDate\<close> and the requests sent
  to the generative model, each with the date it was made for.
\<close>

record world =
  currentQuote :: "Quote option"
  loading :: bool
  favorites :: "StoredQuote list"
  "notes" :: "jsstring \<rightharpoonup> jsstring"
  selectedDateKey :: "jsstring option"
  isNoteModalOpen :: bool
  noteText :: jsstring
  toastMessage :: "toast option"
  localStorage :: "jsstring \<rightharpoonup> jsstring"
  generate_calls :: "jsdate list"
  ai_calls :: "jsdate list"

definition FAVORITES_KEY :: jsstring where
  "FAVORITES_KEY = js ''favorite_quotes_v2''"

definition NOTES_KEY :: jsstring where
  "NOTES_KEY = js ''user_notes_v1''"

definition BOOKMARK_KEY :: jsstring where
  "BOOKMARK_KEY = js ''last_read_page_v1''"

subsection \<open>\<^verbatim>\<open>services/geminiService.ts\<close>\<close>

text \<open>The key \<^verbatim>\<open>`${month}/${day}`\<close> with \<^verbatim>\<open>month = date.getMonth() + 1\<close>.\<close>

definition dateKey :: "jsdate \<Rightarrow> jsstring" where
  "dateKey d = num_str (plus_num (getMonth d) 1) @ js ''/'' @ num_str (getDate d)"

definition fixedQuote :: "jsstring \<Rightarrow> Quote" where
  "fixedQuote fixedContent = \<lparr>quote = fixedContent, author = [], meaning = [], tags = []\<rparr>"

text \<open>The quote returned from the \<^verbatim>\<open>catch\<close> block, as UTF-16 code units.\<close>

definition fallback_quote :: Quote where
  "fallback_quote =
     \<lparr>quote = [0xC704, 0xB300, 0xD55C, 0x20, 0xC5C5, 0xC801, 0xC740, 0x20, 0xB300, 0xAC1C,
               0x20, 0xCEE4, 0xB2E4, 0xB780, 0x20, 0xD76C, 0xC0DD, 0xC744, 0x20, 0xCE58,
               0xB978, 0x20, 0xACB0, 0xACFC, 0xC774, 0xB2E4, 0x2E],
      author = [], meaning = [], tags = []\<rparr>"

text \<open>
  The body of the \<^verbatim>\<open>try\<close> block of \<^verbatim>\<open>generateQuoteOfDay\<close>, for the request that has
  \<open>n\<close> requests before it: the call may fail, an empty or missing \<^verbatim>\<open>response.text\<close>
  throws, and so does \<^verbatim>\<open>JSON.parse\<close> on a malformed text.
\<close>

definition try_generate :: "env \<Rightarrow> jsdate \<Rightarrow> nat \<Rightarrow> exn + Quote" where
  "try_generate E d n =
     (case generateContent E n d of
        Api_Error \<Rightarrow> Inl Api_Failure
      | Response jsonText \<Rightarrow>
          if \<not> truthy jsonText then Inl Empty_Response
          else (case JSON_parse E (the jsonText) of
                  None \<Rightarrow> Inl SyntaxError
                | Some q \<Rightarrow> Inr q))"

text \<open>
  \<^verbatim>\<open>generateQuoteOfDay(date)\<close>, given the requests made so far; it returns how the
  promise settles (\<open>Inl\<close> would be a rejection) and the requests made after it.
\<close>

definition generateQuoteOfDay :: "env \<Rightarrow> jsdate \<Rightarrow> jsdate list \<Rightarrow> (exn + Quote) \<times> jsdate list" where
  "generateQuoteOfDay E d requests =
     (let fixedContent = FIXED_QUOTES E (dateKey d)
      in if truthy fixedContent then (Inr (fixedQuote (the fixedContent)), requests)
         else (case try_generate E d (length requests) of
                 Inr q \<Rightarrow> (Inr q, requests @ [d])
               | Inl error \<Rightarrow> (Inr fallback_quote, requests @ [d])))"

subsection \<open>\<^verbatim>\<open>App.tsx\<close>\<close>

text \<open>
  The sources hold two revisions of \<^verbatim>\<open>App.tsx\<close>. Their handlers are the same except
  for \<^verbatim>\<open>loadQuoteByDate\<close>: the first revision has a parameter \<^verbatim>\<open>silent\<close>, the second
  always shows the loading state and also writes a fixed quote into the cache. Both
  are modelled (\<open>loadQuoteByDate\<close> and \<open>loadQuoteByDate_2\<close>).
\<close>

definition cacheKey :: "jsdate \<Rightarrow> jsstring" where
  "cacheKey d =
     js ''quote_cache_v5_'' @ num_str (plus_num (getMonth d) 1) @ js ''_'' @ num_str (getDate d)"

definition setLoading :: "bool \<Rightarrow> bool \<Rightarrow> world \<Rightarrow> world" where
  "setLoading silent b w = (if \<not> silent then w\<lparr>loading := b\<rparr> else w)"

text \<open>
  \<^verbatim>\<open>loadQuoteByDate(targetDate, forceRefresh, silent)\<close>. \<^verbatim>\<open>JSON.parse(cachedData)\<close>
  stands outside the \<^verbatim>\<open>try\<close> block: when it throws, the function rejects with the
  state as it is then.
\<close>

definition loadQuoteByDate ::
  "env \<Rightarrow> jsdate \<Rightarrow> bool \<Rightarrow> bool \<Rightarrow> world \<Rightarrow> (exn \<times> world) + world" where
  "loadQuoteByDate E targetDate forceRefresh silent w0 =
     (let w = setLoading silent True w0;
          cachedData = localStorage w (cacheKey targetDate)
      in if truthy (FIXED_QUOTES E (dateKey targetDate)) then
           Inr (setLoading silent False
                  (w\<lparr>currentQuote := Some (fixedQuote (the (FIXED_QUOTES E (dateKey targetDate)))),
                     selectedDateKey := Some (dateKey targetDate)\<rparr>))
         else if \<not> forceRefresh \<and> truthy cachedData then
           (case JSON_parse E (the cachedData) of
              None \<Rightarrow> Inl (SyntaxError, w)
            | Some q \<Rightarrow>
                Inr (setLoading silent False
                       (w\<lparr>currentQuote := Some q, selectedDateKey := Some (dateKey targetDate)\<rparr>)))
         else
           (case generateQuoteOfDay E targetDate (ai_calls w) of
              (settled, requests) \<Rightarrow>
                let w1 = w\<lparr>generate_calls := generate_calls w @ [targetDate],
                            ai_calls := requests\<rparr>
                in (case settled of
                      Inr q \<Rightarrow>
                        Inr (setLoading silent False
                               (w1\<lparr>currentQuote := Some q,
                                   selectedDateKey := Some (dateKey targetDate),
                                   localStorage :=
                                     (localStorage w1)(cacheKey targetDate \<mapsto> JSON_stringify E q)\<rparr>))
                    | Inl error \<Rightarrow> Inr (setLoading silent False w1))))"

definition loadQuoteByDate_2 ::
  "env \<Rightarrow> jsdate \<Rightarrow> bool \<Rightarrow> world \<Rightarrow> (exn \<times> world) + world" where
  "loadQuoteByDate_2 E targetDate forceRefresh w0 =
     (let w = w0\<lparr>loading := True\<rparr>;
          cachedData = localStorage w (cacheKey targetDate)
      in if truthy (FIXED_QUOTES E (dateKey targetDate)) then
           (let fq = fixedQuote (the (FIXED_QUOTES E (dateKey targetDate)))
            in Inr (w\<lparr>currentQuote := Some fq,
                      selectedDateKey := Some (dateKey targetDate),
                      loading := False,
                      localStorage := (localStorage w)(cacheKey targetDate \<mapsto> JSON_stringify E fq)\<rparr>))
         else if \<not> forceRefresh \<and> truthy cachedData then
           (case JSON_parse E (the cachedData) of
              None \<Rightarrow> Inl (SyntaxError, w)
            | Some q \<Rightarrow>
                Inr (w\<lparr>currentQuote := Some q, selectedDateKey := Some (dateKey targetDate),
                       loading := False\<rparr>))
         else
           (case generateQuoteOfDay E targetDate (ai_calls w) of
              (settled, requests) \<Rightarrow>
                let w1 = w\<lparr>generate_calls := generate_calls w @ [targetDate],
                            ai_calls := requests\<rparr>
                in (case settled of
                      Inr q \<Rightarrow>
                        Inr (w1\<lparr>currentQuote := Some q,
                                 selectedDateKey := Some (dateKey targetDate),
                                 localStorage :=
                                   (localStorage w1)(cacheKey targetDate \<mapsto> JSON_stringify E q),
                                 loading := False\<rparr>)
                    | Inl error \<Rightarrow> Inr (w1\<lparr>loading := False\<rparr>))))"

text \<open>
  \<^verbatim>\<open>getDateFromKey(key)\<close>; \<open>now\<close> is the value of \<^verbatim>\<open>new Date()\<close>. A component that
  \<^verbatim>\<open>split\<close> does not deliver is \<^verbatim>\<open>undefined\<close>, which arithmetic and \<^verbatim>\<open>setDate\<close> turn
  into \<open>NaN\<close>.
\<close>

definition component :: "jsnum list \<Rightarrow> nat \<Rightarrow> jsnum" where
  "component xs i = (if i < length xs then xs ! i else None)"

definition getDateFromKey :: "jsdate \<Rightarrow> jsstring \<Rightarrow> jsdate" where
  "getDateFromKey now key =
     (let parts = map Number (split 0x2F key);
          month = component parts 0;
          day = component parts 1
      in setDate (setMonth now (plus_num month (- 1))) day)"

text \<open>
  \<^verbatim>\<open>handleBookNavigate(direction)\<close>. The call of \<^verbatim>\<open>loadQuoteByDate\<close> at its end is
  taken to run to completion before the next event.
\<close>

definition handleBookNavigate ::
  "env \<Rightarrow> jsdate \<Rightarrow> direction \<Rightarrow> world \<Rightarrow> (exn \<times> world) + world" where
  "handleBookNavigate E now direction w =
     (if \<not> truthy (selectedDateKey w) then Inr w
      else
        let currentDate = getDateFromKey now (the (selectedDateKey w));
            nextDate = setDate currentDate
                         (plus_num (getDate currentDate) (if direction = Next then 1 else - 1));
            nextKey = dateKey nextDate
        in loadQuoteByDate E nextDate False False
             (w\<lparr>localStorage := (localStorage w)(BOOKMARK_KEY \<mapsto> nextKey)\<rparr>))"

definition handleBookNavigate_2 ::
  "env \<Rightarrow> jsdate \<Rightarrow> direction \<Rightarrow> world \<Rightarrow> (exn \<times> world) + world" where
  "handleBookNavigate_2 E now direction w =
     (if \<not> truthy (selectedDateKey w) then Inr w
      else
        let currentDate = getDateFromKey now (the (selectedDateKey w));
            nextDate = (if direction = Next
                        then setDate currentDate (plus_num (getDate currentDate) 1)
                        else setDate currentDate (plus_num (getDate currentDate) (- 1)));
            nextKey = dateKey nextDate
        in loadQuoteByDate_2 E nextDate False
             (w\<lparr>localStorage := (localStorage w)(BOOKMARK_KEY \<mapsto> nextKey)\<rparr>))"

definition getLocalDateString :: "jsdate \<Rightarrow> jsstring" where
  "getLocalDateString d =
     num_str (getFullYear d) @ js ''-'' @ padStart2 (num_str (plus_num (getMonth d) 1))
       @ js ''-'' @ padStart2 (num_str (getDate d))"

text \<open>
  \<^verbatim>\<open>currentNoteDateKey\<close>, the key of the displayed date in the notes map:
  \<^verbatim>\<open>getLocalDateString(selectedDateKey ? getDateFromKey(selectedDateKey) : today)\<close>.
  The clock read for \<^verbatim>\<open>today\<close> and the one read inside \<^verbatim>\<open>getDateFromKey\<close> are taken
  to show the same day.
\<close>

definition currentNoteDateKey :: "jsdate \<Rightarrow> world \<Rightarrow> jsstring" where
  "currentNoteDateKey now w =
     getLocalDateString
       (if truthy (selectedDateKey w) then getDateFromKey now (the (selectedDateKey w)) else now)"

text \<open>\<^verbatim>\<open>toggleFavorite()\<close>; \<open>millis\<close> is the value of \<^verbatim>\<open>Date.now()\<close>.\<close>

definition toggleFavorite :: "env \<Rightarrow> jsdate \<Rightarrow> int \<Rightarrow> world \<Rightarrow> world" where
  "toggleFavorite E now millis w =
     (case currentQuote w of
        None \<Rightarrow> w
      | Some cq \<Rightarrow>
          let isSaved = list_ex (\<lambda>f. quote (data f) = quote cq) (favorites w);
              newFavorites =
                (if isSaved then filter (\<lambda>f. quote (data f) \<noteq> quote cq) (favorites w)
                 else favorites w @
                        [\<lparr>date = (if truthy (selectedDateKey w)
                                  then getLocalDateString
                                         (getDateFromKey now (the (selectedDateKey w)))
                                  else getLocalDateString now),
                          data = cq, viewedAt = millis\<rparr>])
          in w\<lparr>favorites := newFavorites,
               toastMessage := Some (if isSaved then Removed_From_Favorites else Added_To_Favorites),
               localStorage :=
                 (localStorage w)(FAVORITES_KEY \<mapsto> JSON_stringify_favorites E newFavorites)\<rparr>)"

text \<open>\<^verbatim>\<open>handleOpenNote()\<close>: the editor receives the stored text without its signature.\<close>

definition handleOpenNote :: "jsdate \<Rightarrow> world \<Rightarrow> world" where
  "handleOpenNote now w =
     (let text = (case notes w (currentNoteDateKey now w) of None \<Rightarrow> [] | Some t \<Rightarrow> t)
      in w\<lparr>noteText := replace_empty DATE_SIGNATURE_REGEX text, isNoteModalOpen := True\<rparr>)"

text \<open>\<^verbatim>\<open>handleSaveNote()\<close>.\<close>

definition handleSaveNote :: "env \<Rightarrow> jsdate \<Rightarrow> world \<Rightarrow> world" where
  "handleSaveNote E now w =
     (if trim (noteText w) = [] then
        (let newNotes = (notes w)(currentNoteDateKey now w := None)
         in w\<lparr>notes := newNotes,
              localStorage := (localStorage w)(NOTES_KEY \<mapsto> JSON_stringify_notes E newNotes),
              toastMessage := Some Note_Deleted,
              isNoteModalOpen := False\<rparr>)
      else
        (let newNotes = (notes w)(currentNoteDateKey now w \<mapsto> trim (noteText w) @ signature now)
         in w\<lparr>notes := newNotes,
              localStorage := (localStorage w)(NOTES_KEY \<mapsto> JSON_stringify_notes E newNotes),
              toastMessage := Some Note_Saved,
              isNoteModalOpen := False\<rparr>))"

subsection \<open>Notions used to state the properties\<close>

text \<open>The code units an element of a pattern can match.\<close>

fun rx_units :: "rx \<Rightarrow> jschar set" where
  "rx_units (Lit c) = {c}"
| "rx_units Digit = set digit_units"
| "rx_units OptDigit = set digit_units"

text \<open>
  A text carries more than one trailing signature when, after the removal that
  \<^verbatim>\<open>handleOpenNote\<close> and the notes view perform, the pattern still matches.
\<close>

definition compounded :: "jsstring \<Rightarrow> bool" where
  "compounded s =
     (rx_test DATE_SIGNATURE_REGEX s
      \<and> rx_test DATE_SIGNATURE_REGEX (replace_empty DATE_SIGNATURE_REGEX s))"

text \<open>
  A stored note is clean when it carries at most one trailing signature and the text
  that the editor receives from it (the stored text without its signature), trimmed,
  does not end in a signature. The notes written by \<^verbatim>\<open>handleSaveNote\<close> are meant to
  be of this kind; an empty notes map is.
\<close>

definition clean_note :: "jsstring \<Rightarrow> bool" where
  "clean_note s =
     (\<not> compounded s
      \<and> \<not> rx_test DATE_SIGNATURE_REGEX (trim (replace_empty DATE_SIGNATURE_REGEX s)))"

definition notes_clean :: "world \<Rightarrow> bool" where
  "notes_clean w = (\<forall>k s. notes w k = Some s \<longrightarrow> clean_note s)"

text \<open>
  One edit of a note: the user opens the editor, which loads the stored text without
  its signature, changes that text (\<open>edit\<close> is what the typing does to it, through
  \<^verbatim>\<open>onChange={(e) => setNoteText(e.target.value)}\<close>), and saves. \<open>type_text u\<close> is
  the edit that replaces the whole content by \<open>u\<close>.
\<close>

definition edit_and_save :: "env \<Rightarrow> jsdate \<Rightarrow> (jsstring \<Rightarrow> jsstring) \<Rightarrow> world \<Rightarrow> world" where
  "edit_and_save E now edit w =
     (let w1 = handleOpenNote now w
      in handleSaveNote E now (w1\<lparr>noteText := edit (noteText w1)\<rparr>))"

definition type_text :: "jsstring \<Rightarrow> jsstring \<Rightarrow> jsstring" where
  "type_text u loaded = u"

text \<open>\<open>append_text u\<close> is the edit that types \<open>u\<close> at the end of the loaded text.\<close>

definition append_text :: "jsstring \<Rightarrow> jsstring \<Rightarrow> jsstring" where
  "append_text u loaded = loaded @ u"

fun edit_sequence :: "env \<Rightarrow> (jsdate \<times> (jsstring \<Rightarrow> jsstring)) list \<Rightarrow> world \<Rightarrow> world" where
  "edit_sequence E [] w = w"
| "edit_sequence E ((now, edit) # rest) w = edit_sequence E rest (edit_and_save E now edit w)"

text \<open>
  An edit is plain when the user does not produce a signature by it: applied to a
  text that, trimmed, does not end in a text of the signature's form, it gives a text
  that, trimmed, does not end in one either. This is a condition on what the user
  does, not on what the editor was loaded with.
\<close>

definition plain_edit :: "(jsstring \<Rightarrow> jsstring) \<Rightarrow> bool" where
  "plain_edit edit =
     (\<forall>t. \<not> rx_test DATE_SIGNATURE_REGEX (trim t)
          \<longrightarrow> \<not> rx_test DATE_SIGNATURE_REGEX (trim (edit t)))"

text \<open>
  A sequence of presses of the favourite button; between two presses the displayed
  quote and the selected key may have changed.
\<close>

fun toggle_sequence ::
  "env \<Rightarrow> (jsdate \<times> int \<times> Quote option \<times> jsstring option) list \<Rightarrow> world \<Rightarrow> world" where
  "toggle_sequence E [] w = w"
| "toggle_sequence E ((now, millis, cq, key) # rest) w =
     toggle_sequence E rest
       (toggleFavorite E now millis (w\<lparr>currentQuote := cq, selectedDateKey := key\<rparr>))"

definition favorite_texts :: "world \<Rightarrow> jsstring list" where
  "favorite_texts w = map (\<lambda>f. quote (data f)) (favorites w)"

subsection \<open>Concrete inputs\<close>

text \<open>
  The state of \<^verbatim>\<open>App\<close> at its first render with an empty \<^verbatim>\<open>localStorage\<close>.
\<close>

definition initial_world :: world where
  "initial_world =
     \<lparr>currentQuote = None, loading = True, favorites = [], notes = Map.empty,
      selectedDateKey = None, isNoteModalOpen = False, noteText = [], toastMessage = None,
      localStorage = Map.empty, generate_calls = [], ai_calls = []\<rparr>"

text \<open>
  An environment for the instances below. Its table has entries for 31 January,
  1 February and 28 February. Its generative model fails on the first request, answers
  without a text on the second, with a malformed text on the third and with a
  well-formed one from then on. Its stand-in for JSON writes a quote as its text after
  a two-letter tag, which is enough for quotes whose other fields are empty.
\<close>

definition test_parse :: "jsstring \<Rightarrow> Quote option" where
  "test_parse s = (if take 2 s = js ''Q:'' then Some (fixedQuote (drop 2 s)) else None)"

definition test_stringify :: "Quote \<Rightarrow> jsstring" where
  "test_stringify q = js ''Q:'' @ quote q"

definition test_model :: "nat \<Rightarrow> jsdate \<Rightarrow> ai_response" where
  "test_model n d =
     (if n = 0 then Api_Error
      else if n = 1 then Response None
      else if n = 2 then Response (Some (js ''{''))
      else Response (Some (js ''Q:wisdom'')))"

definition test_env :: env where
  "test_env =
     \<lparr>FIXED_QUOTES = [js ''1/31'' \<mapsto> js ''A'', js ''2/1'' \<mapsto> js ''B'', js ''2/28'' \<mapsto> js ''C''],
      generateContent = test_model,
      JSON_parse = test_parse,
      JSON_stringify = test_stringify,
      JSON_stringify_favorites = (\<lambda>fs. js ''F''),
      JSON_stringify_notes = (\<lambda>ns. js ''N'')\<rparr>"

text \<open>The same environment with a table whose only entry, for 1 January, is empty.\<close>

definition empty_entry_env :: env where
  "empty_entry_env = test_env\<lparr>FIXED_QUOTES := [js ''1/1'' \<mapsto> [] ]\<rparr>"

text \<open>
  A world whose cache holds a stale entry for 31 January, and one with two notes, a
  bookmark and blank text in the editor.
\<close>

definition stale_world :: world where
  "stale_world = initial_world\<lparr>localStorage := [js ''quote_cache_v5_1_31'' \<mapsto> js ''Q:stale'']\<rparr>"

definition note_world :: world where
  "note_world =
     initial_world
       \<lparr>notes := [js ''2024-03-05'' \<mapsto> js ''old'', js ''2024-03-04'' \<mapsto> js ''other''],
        noteText := js ''   '',
        localStorage := [BOOKMARK_KEY \<mapsto> js ''3/4'']\<rparr>"

text \<open>The initial world after three requests to the generative model.\<close>

definition later_world :: world where
  "later_world =
     initial_world\<lparr>ai_calls := [Date 2024 5 12, Date 2024 5 13, Date 2024 5 14]\<rparr>"

text \<open>
  A world that displays the quote \<^verbatim>\<open>A\<close> and has two favourites, and one in which the
  page of 5 March is selected.
\<close>

definition fav_world :: world where
  "fav_world =
     initial_world
       \<lparr>currentQuote := Some (fixedQuote (js ''A'')),
        favorites := [\<lparr>date = js ''2024-03-04'', data = fixedQuote (js ''A''), viewedAt = 1\<rparr>,
                      \<lparr>date = js ''2024-03-05'', data = fixedQuote (js ''B''), viewedAt = 2\<rparr>]\<rparr>"

definition march5_world :: world where
  "march5_world = initial_world\<lparr>selectedDateKey := Some (js ''3/5'')\<rparr>"

text \<open>The initial world with the page of 31 January selected.\<close>

definition jan31_world :: world where
  "jan31_world = initial_world\<lparr>selectedDateKey := Some (js ''1/31'')\<rparr>"

section \<open>Properties\<close>

subsection \<open>Decimal digits\<close>

lemma length_digit_units: "length digit_units = 10"
  by (simp add: digit_units_def)

lemma is_digit_nth: "k < 10 \<Longrightarrow> is_digit (digit_units ! k)"
  by (simp add: is_digit_def length_digit_units)

lemma digits10_all_digits: "list_all is_digit (digits10 n)"
proof (induction n rule: digits10.induct)
  case (1 n)
  show ?case
  proof (cases "n < 10")
    case True
    then show ?thesis by (simp add: digits10.simps [of n] is_digit_nth)
  next
    case False
    with 1 show ?thesis by (simp add: digits10.simps [of n] is_digit_nth)
  qed
qed

lemma digits10_one: "n < 10 \<Longrightarrow> length (digits10 n) = 1"
  by (simp add: digits10.simps [of n])

lemma digits10_two: "10 \<le> n \<Longrightarrow> n < 100 \<Longrightarrow> length (digits10 n) = 2"
  by (simp add: digits10.simps [of n] digits10_one)

lemma digits10_three: "100 \<le> n \<Longrightarrow> n < 1000 \<Longrightarrow> length (digits10 n) = 3"
  by (simp add: digits10.simps [of n] digits10_two)

lemma digits10_four: "1000 \<le> n \<Longrightarrow> n < 10000 \<Longrightarrow> length (digits10 n) = 4"
  by (simp add: digits10.simps [of n] digits10_three)

lemma four_digits:
  assumes "1000 \<le> n" "n < 10000"
  obtains a b c d where "digits10 n = [a, b, c, d]"
    "is_digit a" "is_digit b" "is_digit c" "is_digit d"
proof -
  have "length (digits10 n) = 4" using assms by (rule digits10_four)
  then obtain a b c d where "digits10 n = [a, b, c, d]"
    by (auto simp: length_Suc_conv numeral_eq_Suc)
  with digits10_all_digits [of n] that show thesis by simp
qed

lemma one_or_two_digits:
  assumes "n < 100"
  obtains a where "digits10 n = [a]" "is_digit a"
  | a b where "digits10 n = [a, b]" "is_digit a" "is_digit b"
proof (cases "n < 10")
  case True
  then have "length (digits10 n) = 1" by (rule digits10_one)
  then obtain a where "digits10 n = [a]" by (auto simp: length_Suc_conv)
  with digits10_all_digits [of n] that show thesis by simp
next
  case False
  with assms have "length (digits10 n) = 2" by (simp add: digits10_two)
  then obtain a b where "digits10 n = [a, b]" by (auto simp: length_Suc_conv numeral_eq_Suc)
  with digits10_all_digits [of n] that show thesis by simp
qed

subsection \<open>The signature and its pattern\<close>

lemma rx_match_one_or_two:
  assumes "n < 100" "rx_match p rest"
  shows "rx_match (Digit # OptDigit # p) (digits10 n @ rest)"
  using assms(1)
proof (cases rule: one_or_two_digits)
  case (1 a)
  with assms(2) show ?thesis by simp
next
  case (2 a b)
  with assms(2) show ?thesis by simp
qed

lemma signature_matches:
  assumes "1000 \<le> y" "y \<le> 9999" "0 \<le> m" "m \<le> 11" "1 \<le> d" "d \<le> 31"
  shows "rx_match DATE_SIGNATURE_REGEX (signature (Date y m d))"
proof -
  have "1000 \<le> nat y" "nat y < 10000" using assms(1,2) by auto
  then obtain a b c e where y4: "digits10 (nat y) = [a, b, c, e]"
    and dig: "is_digit a" "is_digit b" "is_digit c" "is_digit e"
    by (rule four_digits)
  have m2: "nat (m + 1) < 100" and d2: "nat d < 100" using assms by auto
  have "rx_match [Lit 0x2E] (js ''.'')" by (simp add: js_def)
  then have "rx_match [Digit, OptDigit, Lit 0x2E] (digits10 (nat d) @ js ''.'')"
    using d2 by (rule rx_match_one_or_two [rotated])
  then have "rx_match [Lit 0x2E, Lit 0x20, Digit, OptDigit, Lit 0x2E]
      (js ''. '' @ digits10 (nat d) @ js ''.'')"
    by (simp add: js_def)
  then have "rx_match [Digit, OptDigit, Lit 0x2E, Lit 0x20, Digit, OptDigit, Lit 0x2E]
      (digits10 (nat (m + 1)) @ js ''. '' @ digits10 (nat d) @ js ''.'')"
    using m2 by (rule rx_match_one_or_two [rotated])
  then show ?thesis
    using assms y4 dig
    by (simp add: DATE_SIGNATURE_REGEX_def signature_def num_str_def getFullYear_def
        getMonth_def getDate_def plus_num_def js_def)
qed

lemma days_in_month_le: "days_in_month y m \<le> 31"
  by (simp add: days_in_month_def)

lemma signature_matches_valid:
  assumes "valid_date now" "getFullYear now = Some y" "1000 \<le> y" "y \<le> 9999"
  shows "rx_match DATE_SIGNATURE_REGEX (signature now)"
proof (cases now)
  case Invalid_Date
  with assms(1) show ?thesis by (simp add: valid_date_def)
next
  case (Date y' m d)
  with assms have "y' = y" "0 \<le> m" "m \<le> 11" "1 \<le> d" "d \<le> days_in_month y m"
    by (simp_all add: valid_date_def getFullYear_def)
  with days_in_month_le [of y m] assms(3,4) Date show ?thesis
    by (simp add: signature_matches)
qed

lemma rx_match_units: "rx_match p s \<Longrightarrow> set s \<subseteq> (\<Union>r \<in> set p. rx_units r)"
proof (induction p s rule: rx_match.induct)
  case (1 s)
  then show ?case by simp
next
  case (2 c p s)
  then show ?case by (cases s) (auto simp: is_digit_def)
next
  case (3 p s)
  then show ?case by (cases s) (auto simp: is_digit_def)
next
  case (4 p s)
  then show ?case by (cases s) (auto simp: is_digit_def)
qed

text \<open>A text that the pattern matches begins with two line feeds and has no other.\<close>

lemma signature_match_shape:
  assumes "rx_match DATE_SIGNATURE_REGEX x"
  obtains r where "x = 0x0A # 0x0A # r" "0x0A \<notin> set r"
proof -
  let ?rest = "[Lit 0x20, Lit 0x2014, Lit 0x20,
      Digit, Digit, Digit, Digit, Lit 0x2E, Lit 0x20,
      Digit, OptDigit, Lit 0x2E, Lit 0x20,
      Digit, OptDigit, Lit 0x2E]"
  from assms obtain r where x: "x = 0x0A # 0x0A # r" and r: "rx_match ?rest r"
    by (auto simp: DATE_SIGNATURE_REGEX_def split: list.splits)
  from rx_match_units [OF r] have "0x0A \<notin> set r"
    by (auto simp: digit_units_def)
  with x that show thesis by blast
qed

lemma signature_starts: "\<exists>r. signature now = 0x0A # 0x0A # r"
  by (simp add: signature_def)

text \<open>No match can begin before an appended signature.\<close>

lemma no_early_match: "\<not> rx_match DATE_SIGNATURE_REGEX ((c # cs) @ signature now)"
proof
  assume m: "rx_match DATE_SIGNATURE_REGEX ((c # cs) @ signature now)"
  obtain s where s: "signature now = 0x0A # 0x0A # s"
    using signature_starts by blast
  from m obtain r where eq: "(c # cs) @ signature now = 0x0A # 0x0A # r"
    and r: "0x0A \<notin> set r"
    by (rule signature_match_shape)
  show False
  proof (cases cs)
    case Nil
    with eq s have "r = 0x0A # s" by simp
    with r show False by simp
  next
    case (Cons x xs)
    with eq s have "r = xs @ 0x0A # 0x0A # s" by simp
    with r show False by simp
  qed
qed

lemma strip_append_signature:
  assumes "rx_match DATE_SIGNATURE_REGEX (signature now)"
  shows "replace_empty DATE_SIGNATURE_REGEX (t @ signature now) = t"
proof (induction t)
  case Nil
  obtain s where "signature now = 0x0A # 0x0A # s"
    using signature_starts by blast
  with assms show ?case by simp
next
  case (Cons c cs)
  have "\<not> rx_match DATE_SIGNATURE_REGEX (c # cs @ signature now)"
    using no_early_match [of c cs now] by simp
  with Cons show ?case by simp
qed

text \<open>
  C4, as stated: for every text \<open>t\<close> that the signature pattern does not match and
  for every valid date \<open>now\<close>, removing the signature from \<open>t\<close> followed by the
  signature of \<open>now\<close> gives \<open>t\<close> back. This fails for a date whose year does not
  have four digits: the pattern asks for exactly four, so the signature written on
  1 January 10000 is not recognised and stays in the text.
\<close>

theorem strip_append_year_10000_counterexample:
  "valid_date (Date 10000 0 1)
   \<and> \<not> rx_test DATE_SIGNATURE_REGEX (js ''hello'')
   \<and> replace_empty DATE_SIGNATURE_REGEX (js ''hello'' @ signature (Date 10000 0 1))
       \<noteq> js ''hello''"
  by (simp add: valid_date_def days_in_month_def signature_def js_def DATE_SIGNATURE_REGEX_def
      num_str_def getFullYear_def getMonth_def getDate_def plus_num_def digits10.simps
      digit_units_def is_digit_def)

text \<open>
  C4, as amended: for every text \<open>t\<close> that the signature pattern does not match and
  for every valid date \<open>now\<close> whose year has four digits (1000 to 9999), the text
  that \<^verbatim>\<open>handleOpenNote\<close> puts into the editor for the stored text \<open>t\<close> followed by
  the signature of \<open>now\<close> is \<open>t\<close>. (The proof does not use the hypothesis on \<open>t\<close>:
  \<open>strip_append_signature\<close> holds for every text.)
\<close>

theorem strip_append_roundtrip:
  assumes "\<not> rx_test DATE_SIGNATURE_REGEX t"
    and "valid_date now" and "getFullYear now = Some y" and "1000 \<le> y" and "y \<le> 9999"
  shows "replace_empty DATE_SIGNATURE_REGEX (t @ signature now) = t"
  using assms(2-5) by (intro strip_append_signature signature_matches_valid)

text \<open>The instance of the specification: the text \<^verbatim>\<open>hello\<close> saved on 5 March 2024.\<close>

theorem strip_append_roundtrip_witness:
  "\<not> rx_test DATE_SIGNATURE_REGEX (js ''hello'')
   \<and> valid_date (Date 2024 2 5) \<and> getFullYear (Date 2024 2 5) = Some 2024
   \<and> replace_empty DATE_SIGNATURE_REGEX (js ''hello'' @ signature (Date 2024 2 5)) = js ''hello''"
proof -
  have t: "\<not> rx_test DATE_SIGNATURE_REGEX (js ''hello'')"
    by (simp add: js_def DATE_SIGNATURE_REGEX_def)
  have v: "valid_date (Date 2024 2 5)"
    by (simp add: valid_date_def days_in_month_def)
  have y: "getFullYear (Date 2024 2 5) = Some 2024"
    by (simp add: getFullYear_def)
  from strip_append_roundtrip [OF t v y] t v y show ?thesis by simp
qed

subsection \<open>Resolution of a date to a quote\<close>

lemma generate_fixed:
  assumes "FIXED_QUOTES E (dateKey d) = Some t" "t \<noteq> []"
  shows "generateQuoteOfDay E d rs = (Inr (fixedQuote t), rs)"
  using assms by (simp add: generateQuoteOfDay_def truthy_def)

lemma generate_absent:
  assumes "\<not> truthy (FIXED_QUOTES E (dateKey d))"
  shows "generateQuoteOfDay E d rs =
    (Inr (case try_generate E d (length rs) of Inr q \<Rightarrow> q | Inl e \<Rightarrow> fallback_quote), rs @ [d])"
  using assms by (simp add: generateQuoteOfDay_def split: sum.splits)

lemma generate_settles: "\<exists>q. fst (generateQuoteOfDay E d rs) = Inr q"
  by (simp add: generateQuoteOfDay_def Let_def split: sum.splits)

lemma load_fixed:
  assumes "FIXED_QUOTES E (dateKey d) = Some t" "t \<noteq> []"
  shows "\<exists>w'. loadQuoteByDate E d forceRefresh silent w = Inr w'
    \<and> currentQuote w' = Some (fixedQuote t) \<and> selectedDateKey w' = Some (dateKey d)
    \<and> ai_calls w' = ai_calls w \<and> generate_calls w' = generate_calls w"
  using assms by (simp add: loadQuoteByDate_def truthy_def setLoading_def Let_def)

lemma load_2_fixed:
  assumes "FIXED_QUOTES E (dateKey d) = Some t" "t \<noteq> []"
  shows "\<exists>w'. loadQuoteByDate_2 E d forceRefresh w = Inr w'
    \<and> currentQuote w' = Some (fixedQuote t) \<and> selectedDateKey w' = Some (dateKey d)
    \<and> ai_calls w' = ai_calls w \<and> generate_calls w' = generate_calls w"
  using assms by (simp add: loadQuoteByDate_2_def truthy_def Let_def)

text \<open>
  The branch that generates: taken when the table has no usable entry and either a
  refresh is forced or the cache has no usable entry.
\<close>

lemma load_generates:
  assumes "\<not> truthy (FIXED_QUOTES E (dateKey d))"
    and "forceRefresh \<or> \<not> truthy (localStorage w (cacheKey d))"
  shows "\<exists>w'. loadQuoteByDate E d forceRefresh silent w = Inr w'
    \<and> currentQuote w' = Some (case try_generate E d (length (ai_calls w)) of
                                 Inr q \<Rightarrow> q | Inl e \<Rightarrow> fallback_quote)
    \<and> selectedDateKey w' = Some (dateKey d)
    \<and> localStorage w' = (localStorage w)(cacheKey d \<mapsto>
         JSON_stringify E (case try_generate E d (length (ai_calls w)) of
                                 Inr q \<Rightarrow> q | Inl e \<Rightarrow> fallback_quote))
    \<and> ai_calls w' = ai_calls w @ [d] \<and> generate_calls w' = generate_calls w @ [d]"
  using assms
  by (auto simp add: loadQuoteByDate_def setLoading_def Let_def generate_absent)

lemma load_2_generates:
  assumes "\<not> truthy (FIXED_QUOTES E (dateKey d))"
    and "forceRefresh \<or> \<not> truthy (localStorage w (cacheKey d))"
  shows "\<exists>w'. loadQuoteByDate_2 E d forceRefresh w = Inr w'
    \<and> currentQuote w' = Some (case try_generate E d (length (ai_calls w)) of
                                 Inr q \<Rightarrow> q | Inl e \<Rightarrow> fallback_quote)
    \<and> selectedDateKey w' = Some (dateKey d)
    \<and> localStorage w' = (localStorage w)(cacheKey d \<mapsto>
         JSON_stringify E (case try_generate E d (length (ai_calls w)) of
                                 Inr q \<Rightarrow> q | Inl e \<Rightarrow> fallback_quote))
    \<and> ai_calls w' = ai_calls w @ [d] \<and> generate_calls w' = generate_calls w @ [d]"
  using assms
  by (auto simp add: loadQuoteByDate_2_def Let_def generate_absent)

text \<open>The branch that serves the cache.\<close>

lemma load_cached:
  assumes "\<not> truthy (FIXED_QUOTES E (dateKey d))"
    and "localStorage w (cacheKey d) = Some s" "s \<noteq> []" "JSON_parse E s = Some q"
  shows "\<exists>w'. loadQuoteByDate E d False silent w = Inr w'
    \<and> currentQuote w' = Some q \<and> selectedDateKey w' = Some (dateKey d)
    \<and> localStorage w' = localStorage w
    \<and> ai_calls w' = ai_calls w \<and> generate_calls w' = generate_calls w"
  using assms
  by (auto simp add: loadQuoteByDate_def setLoading_def Let_def truthy_def)

lemma load_2_cached:
  assumes "\<not> truthy (FIXED_QUOTES E (dateKey d))"
    and "localStorage w (cacheKey d) = Some s" "s \<noteq> []" "JSON_parse E s = Some q"
  shows "\<exists>w'. loadQuoteByDate_2 E d False w = Inr w'
    \<and> currentQuote w' = Some q \<and> selectedDateKey w' = Some (dateKey d)
    \<and> localStorage w' = localStorage w
    \<and> ai_calls w' = ai_calls w \<and> generate_calls w' = generate_calls w"
  using assms
  by (auto simp add: loadQuoteByDate_2_def Let_def truthy_def)

text \<open>Keys and answers of the concrete inputs.\<close>

lemma dateKey_jan1: "dateKey (Date 2024 0 1) = js ''1/1''"
  by (simp add: dateKey_def num_str_def getMonth_def getDate_def plus_num_def digits10.simps
      digit_units_def js_def)

lemma dateKey_jan31: "dateKey (Date 2025 0 31) = js ''1/31''"
  by (simp add: dateKey_def num_str_def getMonth_def getDate_def plus_num_def digits10.simps
      digit_units_def js_def)

lemma cacheKey_jan31: "cacheKey (Date 2025 0 31) = js ''quote_cache_v5_1_31''"
  by (simp add: cacheKey_def num_str_def getMonth_def getDate_def plus_num_def digits10.simps
      digit_units_def js_def)

lemma fixed_jan31: "FIXED_QUOTES test_env (js ''1/31'') = Some (js ''A'')"
  by (simp add: test_env_def js_def)

lemma dateKey_jun15: "dateKey (Date 2024 5 15) = js ''6/15''"
  by (simp add: dateKey_def num_str_def getMonth_def getDate_def plus_num_def digits10.simps
      digit_units_def js_def)

lemma cacheKey_jun15: "cacheKey (Date 2024 5 15) = js ''quote_cache_v5_6_15''"
  by (simp add: cacheKey_def num_str_def getMonth_def getDate_def plus_num_def digits10.simps
      digit_units_def js_def)

lemma absent_jun15: "FIXED_QUOTES test_env (dateKey (Date 2024 5 15)) = None"
  by (simp add: dateKey_jun15 test_env_def js_def)

lemma try_generate_test:
  "try_generate test_env d 0 = Inl Api_Failure"
  "try_generate test_env d 1 = Inl Empty_Response"
  "try_generate test_env d 2 = Inl SyntaxError"
  "try_generate test_env d 3 = Inr (fixedQuote (js ''wisdom''))"
  by (simp_all add: try_generate_def test_env_def test_model_def truthy_def test_parse_def js_def)

text \<open>
  C1, as stated: for every date whose key is present in the fixed dataset, resolution
  returns the dataset's text for that key and never invokes generation. The code tests
  the entry for truthiness (\<^verbatim>\<open>if (fixedContent)\<close>, \<^verbatim>\<open>if (FIXED_QUOTES[dateKey])\<close>), so
  a key that is present with an empty text is treated as absent: with a table whose
  entry for 1 January is the empty text, \<^verbatim>\<open>generateQuoteOfDay\<close> sends a request to the
  generative model and returns another text (here the fallback, the request failing).
\<close>

theorem empty_fixed_entry_counterexample:
  "FIXED_QUOTES empty_entry_env (dateKey (Date 2024 0 1)) = Some []
   \<and> generateQuoteOfDay empty_entry_env (Date 2024 0 1) []
       = (Inr fallback_quote, [Date 2024 0 1])
   \<and> quote fallback_quote \<noteq> []"
  by (simp add: dateKey_jan1 generateQuoteOfDay_def truthy_def try_generate_def
      empty_entry_env_def test_env_def test_model_def fallback_quote_def)

text \<open>
  C1, as amended: for every date whose key has a non-empty text in the fixed dataset,
  \<^verbatim>\<open>generateQuoteOfDay\<close> and both revisions of \<^verbatim>\<open>loadQuoteByDate\<close> deliver the quote
  whose text is exactly that entry and whose author, meaning and tags are empty, for
  both values of \<^verbatim>\<open>forceRefresh\<close> and every prior state (so every state of the cache),
  and neither \<^verbatim>\<open>generateQuoteOfDay\<close> is called by \<^verbatim>\<open>loadQuoteByDate\<close> nor a request
  sent to the generative model.
\<close>

theorem fixed_quote_precedence:
  assumes "FIXED_QUOTES E (dateKey d) = Some t" and "t \<noteq> []"
  shows "generateQuoteOfDay E d requests
           = (Inr \<lparr>quote = t, author = [], meaning = [], tags = []\<rparr>, requests)
    \<and> (\<exists>w'. loadQuoteByDate E d forceRefresh silent w = Inr w'
          \<and> currentQuote w' = Some \<lparr>quote = t, author = [], meaning = [], tags = []\<rparr>
          \<and> ai_calls w' = ai_calls w \<and> generate_calls w' = generate_calls w)
    \<and> (\<exists>w'. loadQuoteByDate_2 E d forceRefresh w = Inr w'
          \<and> currentQuote w' = Some \<lparr>quote = t, author = [], meaning = [], tags = []\<rparr>
          \<and> ai_calls w' = ai_calls w \<and> generate_calls w' = generate_calls w)"
proof -
  have g: "generateQuoteOfDay E d requests
      = (Inr \<lparr>quote = t, author = [], meaning = [], tags = []\<rparr>, requests)"
    using generate_fixed [OF assms] by (simp add: fixedQuote_def)
  from load_fixed [OF assms, of forceRefresh silent w]
  have l1: "\<exists>w'. loadQuoteByDate E d forceRefresh silent w = Inr w'
          \<and> currentQuote w' = Some \<lparr>quote = t, author = [], meaning = [], tags = []\<rparr>
          \<and> ai_calls w' = ai_calls w \<and> generate_calls w' = generate_calls w"
    by (auto simp: fixedQuote_def)
  from load_2_fixed [OF assms, of forceRefresh w]
  have l2: "\<exists>w'. loadQuoteByDate_2 E d forceRefresh w = Inr w'
          \<and> currentQuote w' = Some \<lparr>quote = t, author = [], meaning = [], tags = []\<rparr>
          \<and> ai_calls w' = ai_calls w \<and> generate_calls w' = generate_calls w"
    by (auto simp: fixedQuote_def)
  from g l1 l2 show ?thesis by blast
qed

text \<open>
  An instance: 31 January has the text \<^verbatim>\<open>A\<close> in the table of \<open>test_env\<close>, the cache
  holds a stale entry for that day, and the refresh is forced in the first revision.
\<close>

theorem fixed_quote_precedence_witness:
  "FIXED_QUOTES test_env (dateKey (Date 2025 0 31)) = Some (js ''A'') \<and> js ''A'' \<noteq> []
   \<and> localStorage stale_world (cacheKey (Date 2025 0 31)) = Some (js ''Q:stale'')
   \<and> generateQuoteOfDay test_env (Date 2025 0 31) []
        = (Inr \<lparr>quote = js ''A'', author = [], meaning = [], tags = []\<rparr>, [])
   \<and> (\<exists>w'. loadQuoteByDate test_env (Date 2025 0 31) True False stale_world = Inr w'
          \<and> currentQuote w' = Some \<lparr>quote = js ''A'', author = [], meaning = [], tags = []\<rparr>
          \<and> ai_calls w' = [] \<and> generate_calls w' = [])
   \<and> (\<exists>w'. loadQuoteByDate_2 test_env (Date 2025 0 31) False stale_world = Inr w'
          \<and> currentQuote w' = Some \<lparr>quote = js ''A'', author = [], meaning = [], tags = []\<rparr>
          \<and> ai_calls w' = [] \<and> generate_calls w' = [])"
proof -
  have a: "FIXED_QUOTES test_env (dateKey (Date 2025 0 31)) = Some (js ''A'')"
    by (simp add: dateKey_jan31 fixed_jan31)
  have b: "js ''A'' \<noteq> []" by (simp add: js_def)
  have c: "localStorage stale_world (cacheKey (Date 2025 0 31)) = Some (js ''Q:stale'')"
    by (simp add: cacheKey_jan31 stale_world_def initial_world_def)
  have e: "ai_calls stale_world = []" "generate_calls stale_world = []"
    by (simp_all add: stale_world_def initial_world_def)
  from fixed_quote_precedence [OF a b, of "[]" True False stale_world]
    fixed_quote_precedence [OF a b, of "[]" False False stale_world] a b c e
  show ?thesis by simp
qed

text \<open>
  C9: \<^verbatim>\<open>generateQuoteOfDay\<close> settles with a quote for every date, every table and every
  behaviour of the generative model, and never rejects, so the \<^verbatim>\<open>catch\<close> branch of
  \<^verbatim>\<open>loadQuoteByDate\<close> is not reached by a failure of the generation. When the table
  has no usable entry and the request fails, or the response has no text or an empty
  one, or the text does not parse, the quote is the fallback record, whose text is
  the Korean sentence of the \<^verbatim>\<open>catch\<close> block and whose other fields are empty.
\<close>

theorem generateQuoteOfDay_settles:
  "(\<exists>q. fst (generateQuoteOfDay E d requests) = Inr q)
   \<and> (\<not> truthy (FIXED_QUOTES E (dateKey d)) \<longrightarrow>
        (generateContent E (length requests) d = Api_Error \<longrightarrow>
           fst (generateQuoteOfDay E d requests) = Inr fallback_quote)
      \<and> (generateContent E (length requests) d = Response jsonText \<and> \<not> truthy jsonText \<longrightarrow>
           fst (generateQuoteOfDay E d requests) = Inr fallback_quote)
      \<and> (generateContent E (length requests) d = Response (Some text) \<and> text \<noteq> []
           \<and> JSON_parse E text = None \<longrightarrow>
           fst (generateQuoteOfDay E d requests) = Inr fallback_quote))
   \<and> fallback_quote =
       \<lparr>quote = [0xC704, 0xB300, 0xD55C, 0x20, 0xC5C5, 0xC801, 0xC740, 0x20, 0xB300, 0xAC1C,
                 0x20, 0xCEE4, 0xB2E4, 0xB780, 0x20, 0xD76C, 0xC0DD, 0xC744, 0x20, 0xCE58,
                 0xB978, 0x20, 0xACB0, 0xACFC, 0xC774, 0xB2E4, 0x2E],
        author = [], meaning = [], tags = []\<rparr>"
  by (auto simp add: generate_settles generate_absent try_generate_def truthy_def
      fallback_quote_def)

text \<open>
  An instance for each kind of failure: the first three requests to the generative
  model of \<open>test_env\<close> fail, answer without a text, and answer with a malformed text.
\<close>

theorem generateQuoteOfDay_settles_witness:
  "\<not> truthy (FIXED_QUOTES test_env (dateKey (Date 2024 5 15)))
   \<and> generateContent test_env 0 (Date 2024 5 15) = Api_Error
   \<and> fst (generateQuoteOfDay test_env (Date 2024 5 15) []) = Inr fallback_quote
   \<and> generateContent test_env 1 (Date 2024 5 15) = Response None \<and> \<not> truthy None
   \<and> fst (generateQuoteOfDay test_env (Date 2024 5 15) [Date 2024 5 15]) = Inr fallback_quote
   \<and> generateContent test_env 2 (Date 2024 5 15) = Response (Some (js ''{'')) \<and> js ''{'' \<noteq> []
   \<and> JSON_parse test_env (js ''{'') = None
   \<and> fst (generateQuoteOfDay test_env (Date 2024 5 15) [Date 2024 5 15, Date 2024 5 15])
        = Inr fallback_quote"
proof -
  let ?d = "Date 2024 5 15"
  have a: "\<not> truthy (FIXED_QUOTES test_env (dateKey ?d))"
    by (simp add: absent_jun15 truthy_def)
  have g0: "generateContent test_env (length ([] :: jsdate list)) ?d = Api_Error"
    by (simp add: test_env_def test_model_def)
  have g1: "generateContent test_env (length [?d]) ?d = Response None"
    by (simp add: test_env_def test_model_def)
  have g2: "generateContent test_env (length [?d, ?d]) ?d = Response (Some (js ''{''))"
    by (simp add: test_env_def test_model_def)
  have p: "JSON_parse test_env (js ''{'') = None" "js ''{'' \<noteq> []" "\<not> truthy None"
    by (simp_all add: test_env_def test_parse_def js_def truthy_def)
  from generateQuoteOfDay_settles [of test_env ?d "[]"] a g0
  have r0: "fst (generateQuoteOfDay test_env ?d []) = Inr fallback_quote" by blast
  from generateQuoteOfDay_settles [of test_env ?d "[?d]" None] a g1 p
  have r1: "fst (generateQuoteOfDay test_env ?d [?d]) = Inr fallback_quote" by blast
  from generateQuoteOfDay_settles [of test_env ?d "[?d, ?d]" _ "js ''{''"] a g2 p
  have r2: "fst (generateQuoteOfDay test_env ?d [?d, ?d]) = Inr fallback_quote" by blast
  have n: "generateContent test_env 0 ?d = Api_Error"
    "generateContent test_env 1 ?d = Response None"
    "generateContent test_env 2 ?d = Response (Some (js ''{''))"
    by (simp_all add: test_env_def test_model_def)
  from a n p r0 r1 r2 show ?thesis by blast
qed

subsection \<open>Notes\<close>

lemma getLocalDateString_mar5: "getLocalDateString (Date 2024 2 5) = js ''2024-03-05''"
  by (simp add: getLocalDateString_def num_str_def getFullYear_def getMonth_def getDate_def
      plus_num_def padStart2_def digits10.simps digit_units_def js_def)

lemma trim_blank: "trim (js ''   '') = []"
  by (simp add: trim_def js_def is_space_def white_space_def)

lemma note_key_mar5: "currentNoteDateKey (Date 2024 2 5) note_world = js ''2024-03-05''"
  by (simp add: currentNoteDateKey_def note_world_def initial_world_def truthy_def
      getLocalDateString_mar5)

lemma cacheKey_not_NOTES_KEY: "cacheKey d \<noteq> NOTES_KEY"
  by (simp add: cacheKey_def NOTES_KEY_def js_def)

lemma keys_distinct: "BOOKMARK_KEY \<noteq> NOTES_KEY" "FAVORITES_KEY \<noteq> NOTES_KEY"
  by (simp_all add: BOOKMARK_KEY_def NOTES_KEY_def FAVORITES_KEY_def js_def)

text \<open>
  C7: when the displayed date has a stored note and the text of the editor is empty
  after trimming (for example three spaces), \<^verbatim>\<open>handleSaveNote\<close> removes the entry of
  that date from the notes map; no empty text and no bare signature is stored.
\<close>

theorem save_blank_deletes_note:
  assumes "trim (noteText w) = []"
    and "notes w (currentNoteDateKey now w) = Some old"
  shows "notes (handleSaveNote E now w) (currentNoteDateKey now w) = None
       \<and> currentNoteDateKey now w \<notin> dom (notes (handleSaveNote E now w))"
  using assms(1) by (simp add: handleSaveNote_def Let_def)

text \<open>An instance: the note of 5 March 2024 and an editor holding three spaces.\<close>

theorem save_blank_deletes_note_witness:
  "noteText note_world = js ''   '' \<and> trim (noteText note_world) = []
   \<and> notes note_world (currentNoteDateKey (Date 2024 2 5) note_world) = Some (js ''old'')
   \<and> notes (handleSaveNote test_env (Date 2024 2 5) note_world) (js ''2024-03-05'') = None"
proof -
  have t: "noteText note_world = js ''   ''"
    by (simp add: note_world_def initial_world_def)
  have a: "trim (noteText note_world) = []"
    by (simp add: t trim_blank)
  have b: "notes note_world (currentNoteDateKey (Date 2024 2 5) note_world) = Some (js ''old'')"
    by (simp add: note_key_mar5) (simp add: note_world_def initial_world_def js_def)
  from save_blank_deletes_note [OF a b, of test_env] t a b show ?thesis
    by (simp add: note_key_mar5)
qed

text \<open>
  C10: \<^verbatim>\<open>handleSaveNote\<close> changes the notes map at the key of the displayed date
  only, whether it stores or deletes (the statement holds for every content of the
  editor); it leaves the list of favourites alone, and in \<^verbatim>\<open>localStorage\<close> it writes
  the entry of the notes only, so the cache entry of every date, the bookmark and the
  stored favourites are as before.
\<close>

theorem handleSaveNote_frame:
  "(k \<noteq> currentNoteDateKey now w \<longrightarrow> notes (handleSaveNote E now w) k = notes w k)
   \<and> favorites (handleSaveNote E now w) = favorites w
   \<and> (key \<noteq> NOTES_KEY \<longrightarrow> localStorage (handleSaveNote E now w) key = localStorage w key)
   \<and> localStorage (handleSaveNote E now w) (cacheKey d) = localStorage w (cacheKey d)
   \<and> localStorage (handleSaveNote E now w) BOOKMARK_KEY = localStorage w BOOKMARK_KEY
   \<and> localStorage (handleSaveNote E now w) FAVORITES_KEY = localStorage w FAVORITES_KEY"
  by (simp add: handleSaveNote_def Let_def cacheKey_not_NOTES_KEY keys_distinct)

text \<open>
  An instance on each path: with three spaces in the editor (the entry of 5 March is
  deleted) and with the text \<^verbatim>\<open>hi\<close> (it is overwritten), the note of 4 March and the
  bookmark stay.
\<close>

theorem handleSaveNote_frame_witness:
  "js ''2024-03-04'' \<noteq> currentNoteDateKey (Date 2024 2 5) note_world
   \<and> BOOKMARK_KEY \<noteq> NOTES_KEY
   \<and> notes (handleSaveNote test_env (Date 2024 2 5) note_world) (js ''2024-03-04'')
       = Some (js ''other'')
   \<and> localStorage (handleSaveNote test_env (Date 2024 2 5) note_world) BOOKMARK_KEY
       = Some (js ''3/4'')
   \<and> js ''2024-03-04''
       \<noteq> currentNoteDateKey (Date 2024 2 5) (note_world\<lparr>noteText := js ''hi''\<rparr>)
   \<and> notes (handleSaveNote test_env (Date 2024 2 5) (note_world\<lparr>noteText := js ''hi''\<rparr>))
       (js ''2024-03-04'') = Some (js ''other'')
   \<and> localStorage (handleSaveNote test_env (Date 2024 2 5) (note_world\<lparr>noteText := js ''hi''\<rparr>))
       BOOKMARK_KEY = Some (js ''3/4'')"
proof -
  let ?w = "note_world\<lparr>noteText := js ''hi''\<rparr>"
  have k: "currentNoteDateKey (Date 2024 2 5) ?w = js ''2024-03-05''"
    by (simp add: currentNoteDateKey_def note_world_def initial_world_def truthy_def
        getLocalDateString_mar5)
  have ne: "js ''2024-03-04'' \<noteq> js ''2024-03-05''"
    by (simp add: js_def)
  have old: "notes note_world (js ''2024-03-04'') = Some (js ''other'')"
    "localStorage note_world BOOKMARK_KEY = Some (js ''3/4'')"
    "notes ?w (js ''2024-03-04'') = Some (js ''other'')"
    "localStorage ?w BOOKMARK_KEY = Some (js ''3/4'')"
    by (simp_all add: note_world_def initial_world_def)
  from handleSaveNote_frame [of "js ''2024-03-04''" "Date 2024 2 5" note_world test_env BOOKMARK_KEY]
    handleSaveNote_frame [of "js ''2024-03-04''" "Date 2024 2 5" ?w test_env BOOKMARK_KEY]
    k ne old keys_distinct(1)
  show ?thesis by (simp add: note_key_mar5)
qed

subsection \<open>Generation, its failure and the cache\<close>

lemma generate_absent_fst:
  assumes "\<not> truthy (FIXED_QUOTES E (dateKey d))"
    and "fst (generateQuoteOfDay E d rs) = Inr q"
  shows "(case try_generate E d (length rs) of Inr q \<Rightarrow> q | Inl e \<Rightarrow> fallback_quote) = q"
  using assms by (simp add: generate_absent)

lemma test_codec_fallback:
  "JSON_stringify test_env fallback_quote \<noteq> []"
  "JSON_parse test_env (JSON_stringify test_env fallback_quote) = Some fallback_quote"
  by (simp_all add: test_env_def test_stringify_def test_parse_def fixedQuote_def js_def
      fallback_quote_def)

text \<open>
  What both revisions of \<^verbatim>\<open>loadQuoteByDate\<close> do when the generation is invoked for
  a date without table entry and fails: \<^verbatim>\<open>generateQuoteOfDay\<close> has turned the
  failure into the fallback quote, an ordinary result, so the \<^verbatim>\<open>catch\<close> branch of
  \<^verbatim>\<open>loadQuoteByDate\<close>, which would leave the cache alone, is not taken, and the
  fallback is displayed and written into the cache entry of the date.
\<close>

lemma generation_failure_is_cached:
  assumes "FIXED_QUOTES E (dateKey d) = None"
    and "forceRefresh \<or> \<not> truthy (localStorage w (cacheKey d))"
    and "try_generate E d (length (ai_calls w)) = Inl e"
  shows "(\<exists>w'. loadQuoteByDate E d forceRefresh silent w = Inr w'
            \<and> currentQuote w' = Some fallback_quote
            \<and> localStorage w' (cacheKey d) = Some (JSON_stringify E fallback_quote)
            \<and> ai_calls w' = ai_calls w @ [d])
       \<and> (\<exists>w'. loadQuoteByDate_2 E d forceRefresh w = Inr w'
            \<and> currentQuote w' = Some fallback_quote
            \<and> localStorage w' (cacheKey d) = Some (JSON_stringify E fallback_quote)
            \<and> ai_calls w' = ai_calls w @ [d])"
proof -
  have a: "\<not> truthy (FIXED_QUOTES E (dateKey d))"
    using assms(1) by (simp add: truthy_def)
  from load_generates [OF a assms(2), of silent] load_2_generates [OF a assms(2)] assms(3)
  show ?thesis by auto
qed

text \<open>
  C2 says that, for a date absent from the fixed dataset, a failure of the generation
  gives the fallback quote, is not surfaced, and leaves the cache entry of that date
  unpopulated, so that a later call may generate again. The code at an input where
  the last part does not hold: 15 June with an empty \<^verbatim>\<open>localStorage\<close>, the request
  to the generative model failing. The call completes and displays the fallback, as
  claimed, but the cache entry of 15 June then holds the serialised fallback, in both
  revisions, and a second call (without \<^verbatim>\<open>forceRefresh\<close>, as every call of the
  application is) displays the cached fallback and sends no request.
\<close>

theorem generation_failure_pins_fallback:
  "FIXED_QUOTES test_env (dateKey (Date 2024 5 15)) = None
   \<and> localStorage initial_world (cacheKey (Date 2024 5 15)) = None
   \<and> try_generate test_env (Date 2024 5 15) (length (ai_calls initial_world)) = Inl Api_Failure
   \<and> \<not> isl (loadQuoteByDate test_env (Date 2024 5 15) False False initial_world)
   \<and> currentQuote (projr (loadQuoteByDate test_env (Date 2024 5 15) False False initial_world))
       = Some fallback_quote
   \<and> localStorage (projr (loadQuoteByDate test_env (Date 2024 5 15) False False initial_world))
       (cacheKey (Date 2024 5 15)) = Some (JSON_stringify test_env fallback_quote)
   \<and> ai_calls (projr (loadQuoteByDate test_env (Date 2024 5 15) False False
       (projr (loadQuoteByDate test_env (Date 2024 5 15) False False initial_world))))
     = [Date 2024 5 15]
   \<and> currentQuote (projr (loadQuoteByDate test_env (Date 2024 5 15) False False
       (projr (loadQuoteByDate test_env (Date 2024 5 15) False False initial_world))))
     = Some fallback_quote
   \<and> localStorage (projr (loadQuoteByDate_2 test_env (Date 2024 5 15) False initial_world))
       (cacheKey (Date 2024 5 15)) = Some (JSON_stringify test_env fallback_quote)"
proof -
  let ?d = "Date 2024 5 15"
  have a: "\<not> truthy (FIXED_QUOTES test_env (dateKey ?d))"
    by (simp add: absent_jun15 truthy_def)
  have e: "localStorage initial_world (cacheKey ?d) = None" "ai_calls initial_world = []"
    by (simp_all add: initial_world_def)
  have f: "try_generate test_env ?d (length (ai_calls initial_world)) = Inl Api_Failure"
    by (simp add: e try_generate_test)
  have "False \<or> \<not> truthy (localStorage initial_world (cacheKey ?d))"
    by (simp add: e truthy_def)
  from load_generates [OF a this, of False] f e
  obtain w1 where w1: "loadQuoteByDate test_env ?d False False initial_world = Inr w1"
    "currentQuote w1 = Some fallback_quote" "ai_calls w1 = [?d]"
    "localStorage w1 (cacheKey ?d) = Some (JSON_stringify test_env fallback_quote)"
    by auto
  from load_cached [OF a w1(4) test_codec_fallback, of False]
  obtain w2 where w2: "loadQuoteByDate test_env ?d False False w1 = Inr w2"
    "currentQuote w2 = Some fallback_quote" "ai_calls w2 = ai_calls w1"
    by auto
  from load_2_generates [OF a \<open>False \<or> \<not> truthy (localStorage initial_world (cacheKey ?d))\<close>] f e
  obtain v1 where v1: "loadQuoteByDate_2 test_env ?d False initial_world = Inr v1"
    "localStorage v1 (cacheKey ?d) = Some (JSON_stringify test_env fallback_quote)"
    by auto
  from absent_jun15 e f w1 w2 v1 show ?thesis by simp
qed

lemma generate_later:
  "fst (generateQuoteOfDay test_env (Date 2024 5 15) (ai_calls later_world))
     = Inr (fixedQuote (js ''wisdom''))"
  using try_generate_test(4) [of "Date 2024 5 15"]
  by (simp add: generate_absent absent_jun15 truthy_def later_world_def initial_world_def
      numeral_3_eq_3)

lemma test_codec_wisdom:
  "JSON_stringify test_env (fixedQuote (js ''wisdom'')) \<noteq> []"
  "JSON_parse test_env (JSON_stringify test_env (fixedQuote (js ''wisdom'')))
     = Some (fixedQuote (js ''wisdom''))"
  by (simp_all add: test_env_def test_stringify_def test_parse_def fixedQuote_def js_def)

text \<open>
  C3: for every date absent from the fixed dataset, with \<open>q\<close> the quote that
  \<^verbatim>\<open>generateQuoteOfDay\<close> delivers in the given state: a call of \<^verbatim>\<open>loadQuoteByDate\<close>
  with no cache entry calls \<^verbatim>\<open>generateQuoteOfDay\<close>, which sends one request, displays
  \<open>q\<close> and stores its serialisation under the cache key of the date; a following
  call with \<^verbatim>\<open>forceRefresh = false\<close> displays \<open>q\<close> again with no further call or
  request, given that \<^verbatim>\<open>JSON.parse\<close> reads back what \<^verbatim>\<open>JSON.stringify\<close> wrote
  for \<open>q\<close> (a property of the platform, assumed here); and a call with
  \<^verbatim>\<open>forceRefresh = true\<close> calls \<^verbatim>\<open>generateQuoteOfDay\<close> and sends a request in every
  state, whatever the cache holds. The same holds for the second revision.
\<close>

theorem cache_then_refresh:
  assumes "FIXED_QUOTES E (dateKey d) = None"
    and "fst (generateQuoteOfDay E d (ai_calls w)) = Inr q"
  shows "(localStorage w (cacheKey d) = None \<longrightarrow>
          (\<exists>w1. loadQuoteByDate E d forceRefresh silent w = Inr w1
             \<and> currentQuote w1 = Some q
             \<and> generate_calls w1 = generate_calls w @ [d] \<and> ai_calls w1 = ai_calls w @ [d]
             \<and> localStorage w1 (cacheKey d) = Some (JSON_stringify E q)
             \<and> (JSON_stringify E q \<noteq> [] \<and> JSON_parse E (JSON_stringify E q) = Some q \<longrightarrow>
                  (\<exists>w2. loadQuoteByDate E d False silent' w1 = Inr w2
                     \<and> currentQuote w2 = Some q
                     \<and> generate_calls w2 = generate_calls w1 \<and> ai_calls w2 = ai_calls w1))))
       \<and> (\<exists>w'. loadQuoteByDate E d True silent w = Inr w'
             \<and> currentQuote w' = Some q
             \<and> generate_calls w' = generate_calls w @ [d] \<and> ai_calls w' = ai_calls w @ [d])
       \<and> (localStorage w (cacheKey d) = None \<longrightarrow>
          (\<exists>w1. loadQuoteByDate_2 E d forceRefresh w = Inr w1
             \<and> currentQuote w1 = Some q
             \<and> generate_calls w1 = generate_calls w @ [d] \<and> ai_calls w1 = ai_calls w @ [d]
             \<and> localStorage w1 (cacheKey d) = Some (JSON_stringify E q)
             \<and> (JSON_stringify E q \<noteq> [] \<and> JSON_parse E (JSON_stringify E q) = Some q \<longrightarrow>
                  (\<exists>w2. loadQuoteByDate_2 E d False w1 = Inr w2
                     \<and> currentQuote w2 = Some q
                     \<and> generate_calls w2 = generate_calls w1 \<and> ai_calls w2 = ai_calls w1))))
       \<and> (\<exists>w'. loadQuoteByDate_2 E d True w = Inr w'
             \<and> currentQuote w' = Some q
             \<and> generate_calls w' = generate_calls w @ [d] \<and> ai_calls w' = ai_calls w @ [d])"
proof -
  have a: "\<not> truthy (FIXED_QUOTES E (dateKey d))"
    using assms(1) by (simp add: truthy_def)
  note q = generate_absent_fst [OF a assms(2)]
  have first: "\<exists>w1. loadQuoteByDate E d forceRefresh silent w = Inr w1
             \<and> currentQuote w1 = Some q
             \<and> generate_calls w1 = generate_calls w @ [d] \<and> ai_calls w1 = ai_calls w @ [d]
             \<and> localStorage w1 (cacheKey d) = Some (JSON_stringify E q)
             \<and> (JSON_stringify E q \<noteq> [] \<and> JSON_parse E (JSON_stringify E q) = Some q \<longrightarrow>
                  (\<exists>w2. loadQuoteByDate E d False silent' w1 = Inr w2
                     \<and> currentQuote w2 = Some q
                     \<and> generate_calls w2 = generate_calls w1 \<and> ai_calls w2 = ai_calls w1))"
    if empty: "localStorage w (cacheKey d) = None"
  proof -
    from empty have "forceRefresh \<or> \<not> truthy (localStorage w (cacheKey d))"
      by (simp add: truthy_def)
    from load_generates [OF a this, of silent] q
    obtain w1 where w1: "loadQuoteByDate E d forceRefresh silent w = Inr w1"
      "currentQuote w1 = Some q" "generate_calls w1 = generate_calls w @ [d]"
      "ai_calls w1 = ai_calls w @ [d]"
      "localStorage w1 (cacheKey d) = Some (JSON_stringify E q)"
      by auto
    have "\<exists>w2. loadQuoteByDate E d False silent' w1 = Inr w2
                     \<and> currentQuote w2 = Some q
                     \<and> generate_calls w2 = generate_calls w1 \<and> ai_calls w2 = ai_calls w1"
      if "JSON_stringify E q \<noteq> []" "JSON_parse E (JSON_stringify E q) = Some q"
      using load_cached [OF a w1(5) that, of silent'] by blast
    with w1 show ?thesis by blast
  qed
  have forced: "\<exists>w'. loadQuoteByDate E d True silent w = Inr w'
             \<and> currentQuote w' = Some q
             \<and> generate_calls w' = generate_calls w @ [d] \<and> ai_calls w' = ai_calls w @ [d]"
    using load_generates [OF a, of True w silent] q by auto
  have first2: "\<exists>w1. loadQuoteByDate_2 E d forceRefresh w = Inr w1
             \<and> currentQuote w1 = Some q
             \<and> generate_calls w1 = generate_calls w @ [d] \<and> ai_calls w1 = ai_calls w @ [d]
             \<and> localStorage w1 (cacheKey d) = Some (JSON_stringify E q)
             \<and> (JSON_stringify E q \<noteq> [] \<and> JSON_parse E (JSON_stringify E q) = Some q \<longrightarrow>
                  (\<exists>w2. loadQuoteByDate_2 E d False w1 = Inr w2
                     \<and> currentQuote w2 = Some q
                     \<and> generate_calls w2 = generate_calls w1 \<and> ai_calls w2 = ai_calls w1))"
    if empty: "localStorage w (cacheKey d) = None"
  proof -
    from empty have "forceRefresh \<or> \<not> truthy (localStorage w (cacheKey d))"
      by (simp add: truthy_def)
    from load_2_generates [OF a this] q
    obtain w1 where w1: "loadQuoteByDate_2 E d forceRefresh w = Inr w1"
      "currentQuote w1 = Some q" "generate_calls w1 = generate_calls w @ [d]"
      "ai_calls w1 = ai_calls w @ [d]"
      "localStorage w1 (cacheKey d) = Some (JSON_stringify E q)"
      by auto
    have "\<exists>w2. loadQuoteByDate_2 E d False w1 = Inr w2
                     \<and> currentQuote w2 = Some q
                     \<and> generate_calls w2 = generate_calls w1 \<and> ai_calls w2 = ai_calls w1"
      if "JSON_stringify E q \<noteq> []" "JSON_parse E (JSON_stringify E q) = Some q"
      using load_2_cached [OF a w1(5) that] by blast
    with w1 show ?thesis by blast
  qed
  have forced2: "\<exists>w'. loadQuoteByDate_2 E d True w = Inr w'
             \<and> currentQuote w' = Some q
             \<and> generate_calls w' = generate_calls w @ [d] \<and> ai_calls w' = ai_calls w @ [d]"
    using load_2_generates [OF a, of True w] q by auto
  from first forced first2 forced2 show ?thesis by blast
qed

text \<open>
  An instance: 15 June, after three earlier requests, so that the generative model of
  \<open>test_env\<close> answers with a well-formed text.
\<close>

theorem cache_then_refresh_witness:
  "FIXED_QUOTES test_env (dateKey (Date 2024 5 15)) = None
   \<and> fst (generateQuoteOfDay test_env (Date 2024 5 15) (ai_calls later_world))
       = Inr (fixedQuote (js ''wisdom''))
   \<and> localStorage later_world (cacheKey (Date 2024 5 15)) = None
   \<and> JSON_stringify test_env (fixedQuote (js ''wisdom'')) \<noteq> []
   \<and> JSON_parse test_env (JSON_stringify test_env (fixedQuote (js ''wisdom'')))
       = Some (fixedQuote (js ''wisdom''))
   \<and> (\<exists>w1. loadQuoteByDate test_env (Date 2024 5 15) False False later_world = Inr w1
         \<and> currentQuote w1 = Some (fixedQuote (js ''wisdom''))
         \<and> ai_calls w1 = ai_calls later_world @ [Date 2024 5 15]
         \<and> (\<exists>w2. loadQuoteByDate test_env (Date 2024 5 15) False False w1 = Inr w2
               \<and> currentQuote w2 = Some (fixedQuote (js ''wisdom''))
               \<and> ai_calls w2 = ai_calls w1))
   \<and> (\<exists>w'. loadQuoteByDate test_env (Date 2024 5 15) True False later_world = Inr w'
         \<and> ai_calls w' = ai_calls later_world @ [Date 2024 5 15])"
proof -
  have e: "localStorage later_world (cacheKey (Date 2024 5 15)) = None"
    by (simp add: later_world_def initial_world_def)
  from cache_then_refresh [OF absent_jun15 generate_later, of False False False]
    absent_jun15 generate_later e test_codec_wisdom
  show ?thesis by blast
qed

subsection \<open>Favourites\<close>

lemma favorite_texts_display [simp]:
  "favorite_texts (w\<lparr>currentQuote := cq, selectedDateKey := key\<rparr>) = favorite_texts w"
  by (simp add: favorite_texts_def)

lemma toggle_saved:
  assumes "currentQuote w = Some cq" "quote cq \<in> set (favorite_texts w)"
  shows "favorites (toggleFavorite E now millis w)
           = filter (\<lambda>f. quote (data f) \<noteq> quote cq) (favorites w)"
  using assms by (auto simp add: toggleFavorite_def Let_def list_ex_iff favorite_texts_def)

lemma toggle_unsaved:
  assumes "currentQuote w = Some cq" "quote cq \<notin> set (favorite_texts w)"
  shows "\<exists>f. favorites (toggleFavorite E now millis w) = favorites w @ [f]
           \<and> data f = cq \<and> viewedAt f = millis"
proof -
  from assms(2) have "\<not> list_ex (\<lambda>f. quote (data f) = quote cq) (favorites w)"
    by (force simp add: list_ex_iff favorite_texts_def)
  with assms(1) show ?thesis
    by (simp add: toggleFavorite_def Let_def)
qed

lemma toggle_distinct:
  assumes "distinct (favorite_texts w)"
  shows "distinct (favorite_texts (toggleFavorite E now millis w))"
proof (cases "currentQuote w")
  case None
  with assms show ?thesis by (simp add: toggleFavorite_def)
next
  case (Some cq)
  show ?thesis
  proof (cases "quote cq \<in> set (favorite_texts w)")
    case True
    from toggle_saved [OF Some True] assms show ?thesis
      by (simp add: favorite_texts_def distinct_map_filter)
  next
    case False
    from toggle_unsaved [OF Some False, of E now millis]
    obtain f where "favorites (toggleFavorite E now millis w) = favorites w @ [f]" "data f = cq"
      by blast
    with assms False show ?thesis
      by (simp add: favorite_texts_def)
  qed
qed

lemma toggle_sequence_distinct:
  "distinct (favorite_texts w) \<Longrightarrow> distinct (favorite_texts (toggle_sequence E steps w))"
proof (induction steps arbitrary: w)
  case Nil
  then show ?case by simp
next
  case (Cons step steps)
  obtain now millis cq key where step: "step = (now, millis, cq, key)"
    by (cases step)
  from Cons.prems have "distinct (favorite_texts (w\<lparr>currentQuote := cq, selectedDateKey := key\<rparr>))"
    by simp
  then have "distinct (favorite_texts
      (toggleFavorite E now millis (w\<lparr>currentQuote := cq, selectedDateKey := key\<rparr>)))"
    by (rule toggle_distinct)
  then show ?case unfolding step by (simp add: Cons.IH)
qed

text \<open>
  C8: the favourites are keyed by the text of the quote and kept in the order of
  insertion. From a list without two entries of the same text (the empty list of a
  first start in particular), every sequence of presses of \<^verbatim>\<open>toggleFavorite\<close> leaves
  a list without two entries of the same text; a press while the displayed quote's
  text is among the favourites removes every entry of that text and keeps the others
  in their order; a press while it is not appends exactly one entry, holding the
  displayed quote, at the end.
\<close>

theorem favorites_keyed_by_text:
  "(favorites w = [] \<longrightarrow> distinct (favorite_texts (toggle_sequence E steps w)))
   \<and> (distinct (favorite_texts w) \<longrightarrow> distinct (favorite_texts (toggle_sequence E steps w)))
   \<and> (currentQuote w = Some cq \<and> quote cq \<in> set (favorite_texts w) \<longrightarrow>
        favorites (toggleFavorite E now millis w)
          = filter (\<lambda>f. quote (data f) \<noteq> quote cq) (favorites w)
        \<and> quote cq \<notin> set (favorite_texts (toggleFavorite E now millis w)))
   \<and> (currentQuote w = Some cq \<and> quote cq \<notin> set (favorite_texts w) \<longrightarrow>
        (\<exists>f. favorites (toggleFavorite E now millis w) = favorites w @ [f] \<and> data f = cq))"
proof (intro conjI impI)
  assume "favorites w = []"
  then have "distinct (favorite_texts w)"
    by (simp add: favorite_texts_def)
  then show "distinct (favorite_texts (toggle_sequence E steps w))"
    by (rule toggle_sequence_distinct)
next
  assume "distinct (favorite_texts w)"
  then show "distinct (favorite_texts (toggle_sequence E steps w))"
    by (rule toggle_sequence_distinct)
next
  assume a: "currentQuote w = Some cq \<and> quote cq \<in> set (favorite_texts w)"
  then show "favorites (toggleFavorite E now millis w)
          = filter (\<lambda>f. quote (data f) \<noteq> quote cq) (favorites w)"
    by (simp add: toggle_saved)
  then show "quote cq \<notin> set (favorite_texts (toggleFavorite E now millis w))"
    by (auto simp add: favorite_texts_def)
next
  assume "currentQuote w = Some cq \<and> quote cq \<notin> set (favorite_texts w)"
  then have "\<exists>f. favorites (toggleFavorite E now millis w) = favorites w @ [f]
      \<and> data f = cq \<and> viewedAt f = millis"
    by (intro toggle_unsaved) simp_all
  then show "\<exists>f. favorites (toggleFavorite E now millis w) = favorites w @ [f] \<and> data f = cq"
    by blast
qed

text \<open>
  Instances: three presses from the empty list, a press that removes \<^verbatim>\<open>A\<close> from
  the favourites \<^verbatim>\<open>A\<close>, \<^verbatim>\<open>B\<close>, and a press that appends \<^verbatim>\<open>C\<close> to them.
\<close>

theorem favorites_keyed_by_text_witness:
  "favorites initial_world = [] \<and> distinct (favorite_texts initial_world)
   \<and> distinct (favorite_texts (toggle_sequence test_env
        [(Date 2024 2 5, 1, Some (fixedQuote (js ''A'')), None),
         (Date 2024 2 5, 2, Some (fixedQuote (js ''B'')), None),
         (Date 2024 2 5, 3, Some (fixedQuote (js ''A'')), None)] initial_world))
   \<and> currentQuote fav_world = Some (fixedQuote (js ''A''))
   \<and> quote (fixedQuote (js ''A'')) \<in> set (favorite_texts fav_world)
   \<and> favorites (toggleFavorite test_env (Date 2024 2 5) 3 fav_world)
       = [\<lparr>date = js ''2024-03-05'', data = fixedQuote (js ''B''), viewedAt = 2\<rparr>]
   \<and> currentQuote (fav_world\<lparr>currentQuote := Some (fixedQuote (js ''C''))\<rparr>)
       = Some (fixedQuote (js ''C''))
   \<and> quote (fixedQuote (js ''C'')) \<notin> set (favorite_texts fav_world)
   \<and> (\<exists>f. favorites (toggleFavorite test_env (Date 2024 2 5) 3
              (fav_world\<lparr>currentQuote := Some (fixedQuote (js ''C''))\<rparr>))
            = favorites fav_world @ [f] \<and> data f = fixedQuote (js ''C''))"
proof -
  let ?wc = "fav_world\<lparr>currentQuote := Some (fixedQuote (js ''C''))\<rparr>"
  have d: "distinct (favorite_texts initial_world)" "favorites initial_world = []"
    by (simp_all add: favorite_texts_def initial_world_def)
  have c: "currentQuote fav_world = Some (fixedQuote (js ''A''))"
    "currentQuote ?wc = Some (fixedQuote (js ''C''))"
    by (simp_all add: fav_world_def initial_world_def)
  have t: "favorite_texts fav_world = [js ''A'', js ''B'']" "favorite_texts ?wc = [js ''A'', js ''B'']"
    "favorites ?wc = favorites fav_world"
    by (simp_all add: favorite_texts_def fav_world_def initial_world_def fixedQuote_def)
  have m: "quote (fixedQuote (js ''A'')) \<in> set (favorite_texts fav_world)"
    "quote (fixedQuote (js ''C'')) \<notin> set (favorite_texts fav_world)"
    "quote (fixedQuote (js ''C'')) \<notin> set (favorite_texts ?wc)"
    by (simp_all add: favorite_texts_def fav_world_def initial_world_def fixedQuote_def js_def)
  have f: "filter (\<lambda>f. quote (data f) \<noteq> quote (fixedQuote (js ''A''))) (favorites fav_world)
      = [\<lparr>date = js ''2024-03-05'', data = fixedQuote (js ''B''), viewedAt = 2\<rparr>]"
    by (simp add: fav_world_def initial_world_def fixedQuote_def js_def)
  from favorites_keyed_by_text [of initial_world test_env _ "fixedQuote (js ''A'')"] d
  have s: "distinct (favorite_texts (toggle_sequence test_env
        [(Date 2024 2 5, 1, Some (fixedQuote (js ''A'')), None),
         (Date 2024 2 5, 2, Some (fixedQuote (js ''B'')), None),
         (Date 2024 2 5, 3, Some (fixedQuote (js ''A'')), None)] initial_world))"
    by blast
  from favorites_keyed_by_text [of fav_world test_env "[]" "fixedQuote (js ''A'')" "Date 2024 2 5" 3]
    c m f
  have r: "favorites (toggleFavorite test_env (Date 2024 2 5) 3 fav_world)
       = [\<lparr>date = js ''2024-03-05'', data = fixedQuote (js ''B''), viewedAt = 2\<rparr>]"
    by simp
  from favorites_keyed_by_text [of ?wc test_env "[]" "fixedQuote (js ''C'')" "Date 2024 2 5" 3]
    c m t
  have a: "\<exists>f. favorites (toggleFavorite test_env (Date 2024 2 5) 3 ?wc)
            = favorites fav_world @ [f] \<and> data f = fixedQuote (js ''C'')"
    by simp
  from d s c m r a show ?thesis by blast
qed

subsection \<open>Repeated saves of a note\<close>

lemma digits10_no_line_feed: "0x0A \<notin> set (digits10 n)"
proof
  assume "0x0A \<in> set (digits10 n)"
  with digits10_all_digits [of n] have "is_digit 0x0A"
    by (simp add: list_all_iff)
  then show False by (simp add: is_digit_def digit_units_def)
qed

lemma num_str_no_line_feed: "0x0A \<notin> set (num_str n)"
  by (cases n) (simp_all add: num_str_def js_def digits10_no_line_feed)

lemma rx_test_Lit_absent: "c \<notin> set s \<Longrightarrow> \<not> rx_test (Lit c # p) s"
  by (induction s) auto

lemma rx_test_signature_only:
  assumes "rx_test DATE_SIGNATURE_REGEX (signature now)"
  shows "rx_match DATE_SIGNATURE_REGEX (signature now)"
proof -
  let ?rest = "[0x20, 0x2014, 0x20] @ num_str (getFullYear now) @ js ''. ''
       @ num_str (plus_num (getMonth now) 1) @ js ''. '' @ num_str (getDate now) @ js ''.''"
  have sig: "signature now = 0x0A # 0x0A # ?rest"
    by (simp add: signature_def)
  have "0x0A \<notin> set ?rest"
    by (simp add: num_str_no_line_feed js_def)
  then have rest: "\<not> rx_test DATE_SIGNATURE_REGEX ?rest"
    unfolding DATE_SIGNATURE_REGEX_def by (rule rx_test_Lit_absent)
  have one: "\<not> rx_match DATE_SIGNATURE_REGEX (0x0A # ?rest)"
    by (simp add: DATE_SIGNATURE_REGEX_def)
  from assms rest one show ?thesis
    unfolding sig by simp
qed

lemma rx_test_append_signature:
  "rx_test DATE_SIGNATURE_REGEX (t @ signature now) \<Longrightarrow> rx_match DATE_SIGNATURE_REGEX (signature now)"
proof (induction t)
  case Nil
  then show ?case by (simp add: rx_test_signature_only)
next
  case (Cons c cs)
  have "\<not> rx_match DATE_SIGNATURE_REGEX (c # cs @ signature now)"
    using no_early_match [of c cs now] by simp
  with Cons show ?case by simp
qed

lemma rx_test_suffix: "rx_match p s \<Longrightarrow> rx_test p (t @ s)"
proof (induction t)
  case Nil
  then show ?case by (cases s) simp_all
next
  case (Cons c cs)
  then show ?case by simp
qed

lemma compounded_append_signature:
  assumes "compounded (t @ signature now)"
  shows "rx_test DATE_SIGNATURE_REGEX t"
proof -
  from assms have "rx_test DATE_SIGNATURE_REGEX (t @ signature now)"
    by (simp add: compounded_def)
  then have "rx_match DATE_SIGNATURE_REGEX (signature now)"
    by (rule rx_test_append_signature)
  then have "replace_empty DATE_SIGNATURE_REGEX (t @ signature now) = t"
    by (rule strip_append_signature)
  with assms show ?thesis by (simp add: compounded_def)
qed

lemma handleOpenNote_notes [simp]: "notes (handleOpenNote now w) = notes w"
  by (simp add: handleOpenNote_def Let_def)

lemma currentNoteDateKey_edit_and_save [simp]:
  "currentNoteDateKey now' (edit_and_save E now edit w) = currentNoteDateKey now' w"
  by (simp add: currentNoteDateKey_def edit_and_save_def handleSaveNote_def handleOpenNote_def
      Let_def)

lemma edit_and_save_stores:
  assumes "trim (edit (noteText (handleOpenNote now w))) \<noteq> []"
  shows "notes (edit_and_save E now edit w) (currentNoteDateKey now w)
    = Some (trim (edit (noteText (handleOpenNote now w))) @ signature now)"
  using assms
  by (simp add: edit_and_save_def handleSaveNote_def Let_def currentNoteDateKey_def
      handleOpenNote_def)

lemma getDateFromKey_march5:
  "getDateFromKey (Date 2024 2 5) (js ''3/5'') = Date 2024 2 5"
  "getDateFromKey (Date 2024 2 6) (js ''3/5'') = Date 2024 2 5"
  by code_simp+

lemma note_key_march5:
  "currentNoteDateKey (Date 2024 2 5) march5_world = js ''2024-03-05''"
  "currentNoteDateKey (Date 2024 2 6) march5_world = js ''2024-03-05''"
  by (simp_all add: currentNoteDateKey_def march5_world_def initial_world_def truthy_def
      getDateFromKey_march5 getLocalDateString_mar5) (simp_all add: js_def)

lemma signature_mar5: "signature (Date 2024 2 5) = 0x0A # 0x0A # 0x20 # 0x2014 # js '' 2024. 3. 5.''"
  by (simp add: signature_def num_str_def getFullYear_def getMonth_def getDate_def plus_num_def
      digits10.simps digit_units_def js_def)

lemma signature_match_2024:
  "rx_match DATE_SIGNATURE_REGEX (signature (Date 2024 2 5))"
  "rx_match DATE_SIGNATURE_REGEX (signature (Date 2024 2 6))"
  by (simp_all add: signature_matches)

lemma trim_typed_signature:
  "trim (js ''x'' @ signature (Date 2024 2 5)) = js ''x'' @ signature (Date 2024 2 5)"
  by (simp add: signature_mar5 trim_def js_def is_space_def white_space_def)

text \<open>
  C5, as stated: after every sequence of edits and saves of the note of one date, the
  stored text carries at most one trailing signature. This fails when the text of the
  editor itself ends in a text of the signature's form: the save appends a second
  one. With the page of 5 March selected, a first save of \<^verbatim>\<open>a\<close> and a second save,
  on 6 March, of a text in which the user has typed \<^verbatim>\<open>x\<close> followed by the signature
  of 5 March leave a text with two trailing signatures: removing the last one leaves
  a text that the pattern still matches.
\<close>

theorem typed_signature_compounds_counterexample:
  "notes (edit_sequence test_env
            [(Date 2024 2 5, type_text (js ''a'')),
             (Date 2024 2 6, type_text (js ''x'' @ signature (Date 2024 2 5)))] march5_world)
         (js ''2024-03-05'')
     = Some (js ''x'' @ signature (Date 2024 2 5) @ signature (Date 2024 2 6))
   \<and> rx_test DATE_SIGNATURE_REGEX (js ''x'' @ signature (Date 2024 2 5) @ signature (Date 2024 2 6))
   \<and> replace_empty DATE_SIGNATURE_REGEX
        (js ''x'' @ signature (Date 2024 2 5) @ signature (Date 2024 2 6))
       = js ''x'' @ signature (Date 2024 2 5)
   \<and> rx_test DATE_SIGNATURE_REGEX (js ''x'' @ signature (Date 2024 2 5))
   \<and> compounded (js ''x'' @ signature (Date 2024 2 5) @ signature (Date 2024 2 6))"
proof -
  let ?typed = "js ''x'' @ signature (Date 2024 2 5)"
  let ?w1 = "edit_and_save test_env (Date 2024 2 5) (type_text (js ''a'')) march5_world"
  have ne: "trim (type_text ?typed (noteText (handleOpenNote (Date 2024 2 6) ?w1))) \<noteq> []"
    by (simp add: type_text_def trim_typed_signature) (simp add: js_def)
  have k: "currentNoteDateKey (Date 2024 2 6) ?w1 = js ''2024-03-05''"
    by (simp add: note_key_march5)
  from ne edit_and_save_stores [of "type_text ?typed" "Date 2024 2 6" ?w1 test_env]
  have 1: "notes (edit_sequence test_env
            [(Date 2024 2 5, type_text (js ''a'')), (Date 2024 2 6, type_text ?typed)] march5_world)
         (js ''2024-03-05'') = Some (?typed @ signature (Date 2024 2 6))"
    by (simp add: note_key_march5 type_text_def trim_typed_signature)
  have 2: "rx_test DATE_SIGNATURE_REGEX (?typed @ signature (Date 2024 2 6))"
    using signature_match_2024(2) by (rule rx_test_suffix)
  have 3: "replace_empty DATE_SIGNATURE_REGEX (?typed @ signature (Date 2024 2 6)) = ?typed"
    using signature_match_2024(2) by (rule strip_append_signature)
  have 4: "rx_test DATE_SIGNATURE_REGEX ?typed"
    using signature_match_2024(1) by (rule rx_test_suffix)
  from 1 2 3 4 show ?thesis by (simp add: compounded_def)
qed

text \<open>Trimming.\<close>

lemma last_dropWhile: "dropWhile P l \<noteq> [] \<Longrightarrow> last (dropWhile P l) = last l"
proof -
  assume a: "dropWhile P l \<noteq> []"
  have "l = takeWhile P l @ dropWhile P l" by simp
  then have "last l = last (takeWhile P l @ dropWhile P l)" by simp
  also have "\<dots> = last (dropWhile P l)" using a by (rule last_appendR)
  finally show ?thesis by simp
qed

lemma trim_ends:
  assumes "trim x \<noteq> []"
  shows "\<not> is_space (hd (trim x))" and "\<not> is_space (last (trim x))"
proof -
  let ?y = "dropWhile is_space x"
  let ?z = "dropWhile is_space (rev ?y)"
  from assms have z: "?z \<noteq> []" by (simp add: trim_def)
  have y: "?y \<noteq> []"
  proof
    assume e: "?y = []"
    have "?z = []" unfolding e by simp
    with z show False by simp
  qed
  have "hd (trim x) = last ?z" using z by (simp add: trim_def hd_rev)
  also have "\<dots> = last (rev ?y)" using z by (rule last_dropWhile)
  also have "\<dots> = hd ?y" using y by (simp add: last_rev)
  finally have "hd (trim x) = hd ?y" .
  with hd_dropWhile [OF y] show "\<not> is_space (hd (trim x))" by simp
  have "last (trim x) = hd ?z" using z by (simp add: trim_def last_rev)
  with hd_dropWhile [OF z] show "\<not> is_space (last (trim x))" by simp
qed

lemma trim_fixed:
  assumes "x \<noteq> []" "\<not> is_space (hd x)" "\<not> is_space (last x)"
  shows "trim x = x"
proof -
  have 1: "dropWhile is_space x = x"
    using assms(2) by (simp add: dropWhile_eq_self_iff)
  have "hd (rev x) = last x" using assms(1) by (simp add: hd_rev)
  with assms(3) have 2: "dropWhile is_space (rev x) = rev x"
    by (simp add: dropWhile_eq_self_iff)
  show ?thesis by (simp add: trim_def 1 2)
qed

lemma trim_idem: "trim (trim x) = trim x"
proof (cases "trim x = []")
  case True
  have "trim [] = []" by (simp add: trim_def)
  then show ?thesis by (simp only: True)
next
  case False
  then show ?thesis by (intro trim_fixed trim_ends)
qed

lemma trim_last:
  assumes "y \<noteq> []" "\<not> is_space (last y)"
  shows "trim y \<noteq> []" and "last (trim y) = last y"
proof -
  let ?y = "dropWhile is_space y"
  from assms have "last y \<in> set y" by simp
  with assms(2) have y: "?y \<noteq> []" by (auto simp add: dropWhile_eq_Nil_conv)
  then have l: "last ?y = last y" by (rule last_dropWhile)
  have "hd (rev ?y) = last ?y" using y by (simp add: hd_rev)
  with l assms(2) have "dropWhile is_space (rev ?y) = rev ?y"
    by (simp add: dropWhile_eq_self_iff)
  then have "trim y = ?y" by (simp add: trim_def)
  with y l show "trim y \<noteq> []" and "last (trim y) = last y" by simp_all
qed

lemma signature_last: "signature now \<noteq> []" "last (signature now) = 0x2E"
  by (simp_all add: signature_def js_def)

lemma not_space_dot: "\<not> is_space 0x2E"
  by (simp add: is_space_def white_space_def)

lemma trim_append_signature:
  assumes "trim e \<noteq> []"
  shows "trim (trim e @ signature now) = trim e @ signature now"
proof (rule trim_fixed)
  show "trim e @ signature now \<noteq> []" using assms by simp
  show "\<not> is_space (hd (trim e @ signature now))"
    using assms trim_ends(1) [OF assms] by simp
  show "\<not> is_space (last (trim e @ signature now))"
    by (simp add: signature_last not_space_dot)
qed

text \<open>The pattern and its last code unit.\<close>

lemma replace_no_match: "\<not> rx_test p s \<Longrightarrow> replace_empty p s = s"
  by (induction s) auto

lemma no_match_empty: "\<not> rx_test DATE_SIGNATURE_REGEX []"
  by (simp add: DATE_SIGNATURE_REGEX_def)

lemma rx_match_last: "rx_match (p @ [Lit c]) s \<Longrightarrow> s \<noteq> [] \<and> last s = c"
proof (induction p arbitrary: s)
  case Nil
  then show ?case by (cases s) (auto split: list.splits)
next
  case (Cons r p)
  show ?case
  proof (cases r)
    case (Lit x)
    with Cons.prems obtain a s' where s: "s = a # s'" and m: "rx_match (p @ [Lit c]) s'"
      by (cases s) auto
    from Cons.IH [OF m] s show ?thesis by simp
  next
    case Digit
    with Cons.prems obtain a s' where s: "s = a # s'" and m: "rx_match (p @ [Lit c]) s'"
      by (cases s) auto
    from Cons.IH [OF m] s show ?thesis by simp
  next
    case OptDigit
    with Cons.prems consider a s' where "s = a # s'" "rx_match (p @ [Lit c]) s'"
      | "rx_match (p @ [Lit c]) s"
      by (cases s) auto
    then show ?thesis
    proof cases
      case 1
      from Cons.IH [OF 1(2)] 1(1) show ?thesis by simp
    next
      case 2
      then show ?thesis by (rule Cons.IH)
    qed
  qed
qed

lemma rx_test_last: "rx_test (p @ [Lit c]) s \<Longrightarrow> s \<noteq> [] \<and> last s = c"
proof (induction s)
  case Nil
  then show ?case using rx_match_last [of p c "[]"] by simp
next
  case (Cons a s)
  from Cons.prems consider "rx_match (p @ [Lit c]) (a # s)" | "rx_test (p @ [Lit c]) s"
    by auto
  then show ?case
  proof cases
    case 1
    then show ?thesis by (rule rx_match_last)
  next
    case 2
    with Cons.IH show ?thesis by simp
  qed
qed

lemma signature_test_last:
  assumes "rx_test DATE_SIGNATURE_REGEX s"
  shows "s \<noteq> []" and "last s = 0x2E"
proof -
  have "DATE_SIGNATURE_REGEX = butlast DATE_SIGNATURE_REGEX @ [Lit 0x2E]"
    by (simp add: DATE_SIGNATURE_REGEX_def)
  with assms have "rx_test (butlast DATE_SIGNATURE_REGEX @ [Lit 0x2E]) s" by simp
  from rx_test_last [OF this] show "s \<noteq> []" and "last s = 0x2E" by simp_all
qed

text \<open>Plain edits: saving unchanged, typing a plain text, typing at the end.\<close>

lemma plain_edit_id: "plain_edit id"
  by (simp add: plain_edit_def)

lemma plain_edit_type_text:
  "\<not> rx_test DATE_SIGNATURE_REGEX (trim u) \<Longrightarrow> plain_edit (type_text u)"
  by (simp add: plain_edit_def type_text_def)

lemma plain_edit_append_text:
  assumes "u \<noteq> []" "\<not> is_space (last u)" "last u \<noteq> 0x2E"
  shows "plain_edit (append_text u)"
  unfolding plain_edit_def append_text_def
proof (intro allI impI notI)
  fix t
  assume "rx_test DATE_SIGNATURE_REGEX (trim (t @ u))"
  then have "last (trim (t @ u)) = 0x2E" by (rule signature_test_last)
  moreover have "last (trim (t @ u)) = last u"
    using trim_last(2) [of "t @ u"] assms by simp
  ultimately show False using assms(3) by simp
qed

text \<open>A save of plain text writes a clean note, and keeps the others.\<close>

lemma saved_note_clean:
  assumes "trim e \<noteq> []" "\<not> rx_test DATE_SIGNATURE_REGEX (trim e)"
  shows "clean_note (trim e @ signature now)"
proof -
  let ?s = "trim e @ signature now"
  have c: "\<not> compounded ?s"
    using assms(2) compounded_append_signature [of "trim e" now] by blast
  have "\<not> rx_test DATE_SIGNATURE_REGEX (trim (replace_empty DATE_SIGNATURE_REGEX ?s))"
  proof (cases "rx_match DATE_SIGNATURE_REGEX (signature now)")
    case True
    then have "replace_empty DATE_SIGNATURE_REGEX ?s = trim e"
      by (rule strip_append_signature)
    with assms(2) show ?thesis by (simp add: trim_idem)
  next
    case False
    then have n: "\<not> rx_test DATE_SIGNATURE_REGEX ?s"
      using rx_test_append_signature [of "trim e" now] by blast
    then have "replace_empty DATE_SIGNATURE_REGEX ?s = ?s"
      by (rule replace_no_match)
    with n show ?thesis by (simp add: trim_append_signature [OF assms(1)])
  qed
  with c show ?thesis by (simp add: clean_note_def)
qed

lemma handleSaveNote_clean:
  assumes "notes_clean w" "\<not> rx_test DATE_SIGNATURE_REGEX (trim (noteText w))"
  shows "notes_clean (handleSaveNote E now w)"
proof (cases "trim (noteText w) = []")
  case True
  with assms(1) show ?thesis
    by (simp add: notes_clean_def handleSaveNote_def Let_def)
next
  case False
  from saved_note_clean [OF False assms(2)] assms(1) False show ?thesis
    by (simp add: notes_clean_def handleSaveNote_def Let_def)
qed

text \<open>What the editor receives from a clean note does not end in a signature.\<close>

lemma loaded_text_plain:
  assumes "notes_clean w"
  shows "\<not> rx_test DATE_SIGNATURE_REGEX (trim (noteText (handleOpenNote now w)))"
proof (cases "notes w (currentNoteDateKey now w)")
  case None
  have "trim [] = []" by (simp add: trim_def)
  with None show ?thesis
    by (simp add: handleOpenNote_def Let_def DATE_SIGNATURE_REGEX_def)
next
  case (Some s)
  with assms have "clean_note s" by (simp add: notes_clean_def)
  with Some show ?thesis
    by (simp add: handleOpenNote_def Let_def clean_note_def)
qed

lemma edit_and_save_clean:
  assumes "notes_clean w" "plain_edit edit"
  shows "notes_clean (edit_and_save E now edit w)"
proof -
  let ?w1 = "handleOpenNote now w"
  from assms have p: "\<not> rx_test DATE_SIGNATURE_REGEX (trim (edit (noteText ?w1)))"
    using loaded_text_plain [of w now] by (simp add: plain_edit_def)
  have "notes_clean (?w1\<lparr>noteText := edit (noteText ?w1)\<rparr>)"
    using assms(1) by (simp add: notes_clean_def)
  from handleSaveNote_clean [OF this, of E now] p show ?thesis
    by (simp add: edit_and_save_def Let_def)
qed

lemma edit_sequence_clean:
  "notes_clean w \<Longrightarrow> \<forall>step \<in> set steps. plain_edit (snd step)
    \<Longrightarrow> notes_clean (edit_sequence E steps w)"
proof (induction steps arbitrary: w)
  case Nil
  then show ?case by simp
next
  case (Cons step steps)
  obtain now edit where step: "step = (now, edit)" by (cases step)
  from Cons.prems have "notes_clean (edit_and_save E now edit w)"
    unfolding step by (simp add: edit_and_save_clean)
  with Cons.prems show ?case unfolding step by (simp add: Cons.IH)
qed

lemma empty_notes_clean: "notes w = Map.empty \<Longrightarrow> notes_clean w"
  by (simp add: notes_clean_def)

lemma clean_not_compounded:
  "notes_clean w \<Longrightarrow> notes w k = Some s \<Longrightarrow> \<not> compounded s"
  by (simp add: notes_clean_def clean_note_def)

lemma plain_instances:
  "plain_edit (type_text (js ''first''))"
  "plain_edit (append_text (js '' second''))"
proof -
  have "trim (js ''first'') = js ''first''"
    by (simp add: trim_def js_def is_space_def white_space_def)
  moreover have "\<not> rx_test DATE_SIGNATURE_REGEX (js ''first'')"
    by (simp add: js_def DATE_SIGNATURE_REGEX_def)
  ultimately show "plain_edit (type_text (js ''first''))"
    by (simp add: plain_edit_type_text)
  show "plain_edit (append_text (js '' second''))"
    by (rule plain_edit_append_text) (simp_all add: js_def is_space_def white_space_def)
qed

lemma stored_after_three:
  "notes (edit_sequence test_env
      [(Date 2024 2 5, type_text (js ''first'')), (Date 2024 2 6, id),
       (Date 2024 2 6, append_text (js '' second''))] march5_world) (js ''2024-03-05'')
    = Some (js ''first second'' @ signature (Date 2024 2 6))"
  by code_simp

lemma stored_after_two:
  "notes (edit_sequence test_env
      [(Date 2024 2 5, type_text (js ''first'')), (Date 2024 2 6, id)] march5_world)
      (js ''2024-03-05'')
    = Some (js ''first'' @ signature (Date 2024 2 6))"
  by code_simp

text \<open>
  C5, as amended: for every sequence of edits and saves in which no edit of the user
  itself produces a trailing text of the signature's form (every edit is plain),
  starting from an empty notes map or from clean notes, no stored note carries more
  than one trailing signature: the text loaded into the editor has lost the signature
  of the save before, so that the next save does not add a second one. In
  particular, after two successive plain edits and saves for the same date, the second
  in a year of four digits, the stored text of that date, which exists unless the
  second text was empty after trimming, carries exactly one signature: the pattern
  matches it, and does not match what is left when the signature is removed.
\<close>

theorem saves_never_compound:
  "(notes w = Map.empty \<and> (\<forall>step \<in> set steps. plain_edit (snd step)) \<longrightarrow>
      (\<forall>k s. notes (edit_sequence E steps w) k = Some s \<longrightarrow> \<not> compounded s))
   \<and> (notes_clean w \<and> (\<forall>step \<in> set steps. plain_edit (snd step)) \<longrightarrow>
      (\<forall>k s. notes (edit_sequence E steps w) k = Some s \<longrightarrow> \<not> compounded s))
   \<and> (notes_clean w \<and> plain_edit edit1 \<and> plain_edit edit2
        \<and> valid_date now2 \<and> getFullYear now2 = Some y \<and> 1000 \<le> y \<and> y \<le> 9999 \<longrightarrow>
      (\<forall>s. notes (edit_sequence E [(now1, edit1), (now2, edit2)] w)
               (currentNoteDateKey now2 w) = Some s \<longrightarrow>
           rx_test DATE_SIGNATURE_REGEX s
           \<and> \<not> rx_test DATE_SIGNATURE_REGEX (replace_empty DATE_SIGNATURE_REGEX s))
      \<and> (trim (edit2 (noteText (handleOpenNote now2 (edit_and_save E now1 edit1 w)))) \<noteq> [] \<longrightarrow>
           notes (edit_sequence E [(now1, edit1), (now2, edit2)] w)
               (currentNoteDateKey now2 w) \<noteq> None))"
proof (intro conjI impI allI)
  fix k s
  assume "notes w = Map.empty \<and> (\<forall>step \<in> set steps. plain_edit (snd step))"
    and "notes (edit_sequence E steps w) k = Some s"
  then show "\<not> compounded s"
    using edit_sequence_clean [of w steps E] empty_notes_clean [of w] clean_not_compounded
    by blast
next
  fix k s
  assume "notes_clean w \<and> (\<forall>step \<in> set steps. plain_edit (snd step))"
    and "notes (edit_sequence E steps w) k = Some s"
  then show "\<not> compounded s"
    using edit_sequence_clean [of w steps E] clean_not_compounded
    by blast
next
  fix s
  assume a: "notes_clean w \<and> plain_edit edit1 \<and> plain_edit edit2
        \<and> valid_date now2 \<and> getFullYear now2 = Some y \<and> 1000 \<le> y \<and> y \<le> 9999"
    and st: "notes (edit_sequence E [(now1, edit1), (now2, edit2)] w)
               (currentNoteDateKey now2 w) = Some s"
  let ?w1 = "edit_and_save E now1 edit1 w"
  let ?t = "trim (edit2 (noteText (handleOpenNote now2 ?w1)))"
  from a have c1: "notes_clean ?w1" by (simp add: edit_and_save_clean)
  from a have p: "\<not> rx_test DATE_SIGNATURE_REGEX ?t"
    using loaded_text_plain [OF c1, of now2] by (simp add: plain_edit_def)
  from a have m: "rx_match DATE_SIGNATURE_REGEX (signature now2)"
    by (auto intro: signature_matches_valid)
  have ne: "?t \<noteq> []"
  proof
    assume "?t = []"
    then have "notes (edit_and_save E now2 edit2 ?w1) (currentNoteDateKey now2 ?w1) = None"
      by (simp add: edit_and_save_def handleSaveNote_def Let_def currentNoteDateKey_def
          handleOpenNote_def)
    with st show False by simp
  qed
  from edit_and_save_stores [of edit2 now2 ?w1 E] ne st have s: "s = ?t @ signature now2"
    by simp
  have 1: "rx_test DATE_SIGNATURE_REGEX s"
    unfolding s using m by (rule rx_test_suffix)
  have 2: "\<not> rx_test DATE_SIGNATURE_REGEX (replace_empty DATE_SIGNATURE_REGEX s)"
    unfolding s using p by (simp add: strip_append_signature [OF m])
  from 1 show "rx_test DATE_SIGNATURE_REGEX s" .
  from 2 show "\<not> rx_test DATE_SIGNATURE_REGEX (replace_empty DATE_SIGNATURE_REGEX s)" .
next
  let ?w1 = "edit_and_save E now1 edit1 w"
  assume "trim (edit2 (noteText (handleOpenNote now2 ?w1))) \<noteq> []"
  from edit_and_save_stores [of edit2 now2 ?w1 E, OF this]
  show "notes (edit_sequence E [(now1, edit1), (now2, edit2)] w)
               (currentNoteDateKey now2 w) \<noteq> None"
    by simp
qed

text \<open>
  Instances, with the page of 5 March selected: \<^verbatim>\<open>first\<close> is saved on 5 March; on
  6 March the note is opened and saved unchanged, then opened and saved with
  \<^verbatim>\<open>second\<close> typed after it. The stored text has the one signature of 6 March
  each time.
\<close>

theorem saves_never_compound_witness:
  "notes march5_world = Map.empty
   \<and> plain_edit (type_text (js ''first'')) \<and> plain_edit id
   \<and> plain_edit (append_text (js '' second''))
   \<and> notes (edit_sequence test_env
        [(Date 2024 2 5, type_text (js ''first'')), (Date 2024 2 6, id),
         (Date 2024 2 6, append_text (js '' second''))] march5_world) (js ''2024-03-05'')
       = Some (js ''first second'' @ signature (Date 2024 2 6))
   \<and> \<not> compounded (js ''first second'' @ signature (Date 2024 2 6))
   \<and> valid_date (Date 2024 2 6) \<and> getFullYear (Date 2024 2 6) = Some 2024
   \<and> notes (edit_sequence test_env
        [(Date 2024 2 5, type_text (js ''first'')), (Date 2024 2 6, id)] march5_world)
        (js ''2024-03-05'')
       = Some (js ''first'' @ signature (Date 2024 2 6))
   \<and> rx_test DATE_SIGNATURE_REGEX (js ''first'' @ signature (Date 2024 2 6))
   \<and> \<not> rx_test DATE_SIGNATURE_REGEX
         (replace_empty DATE_SIGNATURE_REGEX (js ''first'' @ signature (Date 2024 2 6)))"
proof -
  let ?three = "[(Date 2024 2 5, type_text (js ''first'')), (Date 2024 2 6, id),
         (Date 2024 2 6, append_text (js '' second''))]"
  have e: "notes march5_world = Map.empty"
    by (simp add: march5_world_def initial_world_def)
  then have c: "notes_clean march5_world" by (rule empty_notes_clean)
  have p: "\<forall>step \<in> set ?three. plain_edit (snd step)"
    by (simp add: plain_instances plain_edit_id)
  have v: "valid_date (Date 2024 2 6)" "getFullYear (Date 2024 2 6) = Some 2024"
    by (simp_all add: valid_date_def days_in_month_def getFullYear_def)
  note inst = saves_never_compound [where w = march5_world and E = test_env
      and steps = ?three and ?edit1.0 = "type_text (js ''first'')" and ?edit2.0 = id
      and ?now1.0 = "Date 2024 2 5" and ?now2.0 = "Date 2024 2 6" and y = 2024]
  from inst e p stored_after_three
  have a: "\<not> compounded (js ''first second'' @ signature (Date 2024 2 6))"
    by blast
  from inst c plain_instances(1) plain_edit_id v
  have "\<forall>s. notes (edit_sequence test_env
        [(Date 2024 2 5, type_text (js ''first'')), (Date 2024 2 6, id)] march5_world)
        (currentNoteDateKey (Date 2024 2 6) march5_world) = Some s \<longrightarrow>
      rx_test DATE_SIGNATURE_REGEX s
      \<and> \<not> rx_test DATE_SIGNATURE_REGEX (replace_empty DATE_SIGNATURE_REGEX s)"
    by simp
  with stored_after_two
  have b: "rx_test DATE_SIGNATURE_REGEX (js ''first'' @ signature (Date 2024 2 6))
   \<and> \<not> rx_test DATE_SIGNATURE_REGEX
         (replace_empty DATE_SIGNATURE_REGEX (js ''first'' @ signature (Date 2024 2 6)))"
    unfolding note_key_march5 by blast
  from e plain_instances plain_edit_id stored_after_three a v stored_after_two b
  show ?thesis by (intro conjI) (elim conjE | assumption)+
qed

subsection \<open>Book navigation\<close>

text \<open>
  On 31 January 2025, \<^verbatim>\<open>getDateFromKey\<close> reads the key of 1 February as 1 March:
  \<^verbatim>\<open>setMonth(1)\<close> on a date whose day is 31 runs over into March before \<^verbatim>\<open>setDate\<close>
  is applied.
\<close>

lemma getDateFromKey_overflow:
  "getDateFromKey (Date 2025 0 31) (js ''1/31'') = Date 2025 0 31"
  "getDateFromKey (Date 2025 0 31) (js ''2/1'') = Date 2025 2 1"
  by code_simp+

lemma navigate_next_jan31:
  "\<not> isl (handleBookNavigate test_env (Date 2025 0 31) Next jan31_world)"
  "selectedDateKey (projr (handleBookNavigate test_env (Date 2025 0 31) Next jan31_world))
     = Some (js ''2/1'')"
  "localStorage (projr (handleBookNavigate test_env (Date 2025 0 31) Next jan31_world))
     BOOKMARK_KEY = Some (js ''2/1'')"
  by code_simp+

lemma navigate_back_jan31:
  "\<not> isl (handleBookNavigate test_env (Date 2025 0 31) Prev
     (projr (handleBookNavigate test_env (Date 2025 0 31) Next jan31_world)))"
  "selectedDateKey (projr (handleBookNavigate test_env (Date 2025 0 31) Prev
     (projr (handleBookNavigate test_env (Date 2025 0 31) Next jan31_world))))
     = Some (js ''2/28'')"
  "localStorage (projr (handleBookNavigate test_env (Date 2025 0 31) Prev
     (projr (handleBookNavigate test_env (Date 2025 0 31) Next jan31_world))))
     BOOKMARK_KEY = Some (js ''2/28'')"
  by code_simp+

lemma navigate_2_jan31:
  "selectedDateKey (projr (handleBookNavigate_2 test_env (Date 2025 0 31) Next jan31_world))
     = Some (js ''2/1'')"
  "selectedDateKey (projr (handleBookNavigate_2 test_env (Date 2025 0 31) Prev
     (projr (handleBookNavigate_2 test_env (Date 2025 0 31) Next jan31_world))))
     = Some (js ''2/28'')"
  by code_simp+

text \<open>
  C6 says that one step forward followed by one step back returns to the page of the
  original day. The code at a day on which it does not: the clock shows 31 January
  2025 and the page of 31 January is selected. The step forward selects and
  bookmarks 1 February; the step back reads that key as 1 March and selects and
  bookmarks 28 February, in both revisions.
\<close>

theorem book_navigation_jan31_lands_on_feb28:
  "selectedDateKey jan31_world = Some (js ''1/31'')
   \<and> getDateFromKey (Date 2025 0 31) (js ''2/1'') = Date 2025 2 1
   \<and> \<not> isl (handleBookNavigate test_env (Date 2025 0 31) Next jan31_world)
   \<and> selectedDateKey (projr (handleBookNavigate test_env (Date 2025 0 31) Next jan31_world))
       = Some (js ''2/1'')
   \<and> localStorage (projr (handleBookNavigate test_env (Date 2025 0 31) Next jan31_world))
       BOOKMARK_KEY = Some (js ''2/1'')
   \<and> \<not> isl (handleBookNavigate test_env (Date 2025 0 31) Prev
       (projr (handleBookNavigate test_env (Date 2025 0 31) Next jan31_world)))
   \<and> selectedDateKey (projr (handleBookNavigate test_env (Date 2025 0 31) Prev
       (projr (handleBookNavigate test_env (Date 2025 0 31) Next jan31_world))))
       = Some (js ''2/28'')
   \<and> localStorage (projr (handleBookNavigate test_env (Date 2025 0 31) Prev
       (projr (handleBookNavigate test_env (Date 2025 0 31) Next jan31_world))))
       BOOKMARK_KEY = Some (js ''2/28'')
   \<and> selectedDateKey (projr (handleBookNavigate_2 test_env (Date 2025 0 31) Prev
       (projr (handleBookNavigate_2 test_env (Date 2025 0 31) Next jan31_world))))
       = Some (js ''2/28'')
   \<and> js ''2/28'' \<noteq> js ''1/31''"
proof -
  have s: "selectedDateKey jan31_world = Some (js ''1/31'')"
    by (simp add: jan31_world_def initial_world_def)
  have n: "js ''2/28'' \<noteq> js ''1/31''"
    by (simp add: js_def)
  from s n getDateFromKey_overflow(2) navigate_next_jan31 navigate_back_jan31
    navigate_2_jan31(2)
  show ?thesis by (intro conjI)
qed

end
